theory Spec2Isabelle
  imports Complex_Main "HOL-Library.Sublist"
begin

section \<open>Values shared by the modules\<close>

text \<open>
  JavaScript numbers are modelled as exact rationals. The encoder and the preset
  arithmetic only multiply by small integer constants, compare and truncate, so no
  claim below depends on a rounding step; the non-finite values a sample can take
  are a datatype of their own (see \<open>f32\<close>).

  A thrown value is kept with its \<open>message\<close>, which the \<open>catch\<close> blocks inspect.
\<close>

datatype js_error =
  Error string | TypeError string | RangeError string | DOMException string

fun message :: "js_error \<Rightarrow> string" where
  "message (Error m) = m"
| "message (TypeError m) = m"
| "message (RangeError m) = m"
| "message (DOMException m) = m"

text \<open>\<open>String.prototype.includes\<close>: the argument occurs as a contiguous substring.\<close>

definition str_includes :: "string \<Rightarrow> string \<Rightarrow> bool" where
  "str_includes s sub = sublist sub s"

section \<open>modules/audiofx.js: the AudioFX class\<close>

text \<open>
  A \<open>BiquadFilterNode\<close> with the three parameters the module writes, and the
  \<open>DynamicsCompressorNode\<close> with its five.
\<close>

record biquad =
  ftype :: string
  frequency :: rat
  gain :: rat
  Q :: rat

record dynamics_compressor =
  threshold :: rat
  knee :: rat
  ratio :: rat
  attack :: rat
  release :: rat

record filter_bank =
  lowShelf :: biquad
  highShelf :: biquad
  bandpass :: biquad
  compressor :: dynamics_compressor

text \<open>
  The fields of an \<open>AudioFX\<close> instance. \<open>audioContext\<close> and \<open>sourceNode\<close> say
  whether the field is non-null; \<open>filters\<close> is \<open>None\<close> while the four filter fields are still null
  (\<open>createFilters\<close> sets all four together); \<open>bypassGain\<close> and \<open>processedGain\<close>
  hold the value the node's gain was last ramped to, \<open>None\<close> while the node is null.
\<close>

record audiofx =
  audioContext :: bool
  sourceNode :: bool
  filters :: "filter_bank option"
  currentPreset :: string
  reductionStrength :: int
  isProcessed :: bool
  bypassGain :: "rat option"
  processedGain :: "rat option"

text \<open>The state the constructor leaves.\<close>

definition new_AudioFX :: audiofx where
  "new_AudioFX =
     \<lparr>audioContext = False, sourceNode = False, filters = None, currentPreset = ''off'',
      reductionStrength = 50, isProcessed = False,
      bypassGain = None, processedGain = None\<rparr>"

text \<open>
  \<open>createFilters\<close>. A biquad's \<open>Q\<close> that the code does not set keeps the Web Audio
  default 1.
\<close>

definition createFilters :: filter_bank where
  "createFilters =
     \<lparr>lowShelf = \<lparr>ftype = ''lowshelf'', frequency = 200, gain = 0, Q = 1\<rparr>,
      highShelf = \<lparr>ftype = ''highshelf'', frequency = 4000, gain = 0, Q = 1\<rparr>,
      bandpass = \<lparr>ftype = ''peaking'', frequency = 2000, gain = 0, Q = 1 / 2\<rparr>,
      compressor = \<lparr>threshold = - 24, knee = 30, ratio = 4,
                    attack = 3 / 1000, release = 1 / 4\<rparr>\<rparr>"

text \<open>
  \<open>updateFilters\<close>: nothing without an audio context; a \<open>TypeError\<close> when the
  context exists but the filter fields are null (the context was created and a later
  step of \<open>initAudioContext\<close> threw); otherwise the \<open>switch\<close> on the preset string,
  whose \<open>default\<close> shares the branch of \<open>'off'\<close>.
\<close>

definition updateFilters :: "audiofx \<Rightarrow> js_error + audiofx" where
  "updateFilters s =
     (if \<not> audioContext s then Inr s
      else case filters s of
        None \<Rightarrow> Inl (TypeError ''Cannot read properties of null'')
      | Some f \<Rightarrow>
          let strength = of_int (reductionStrength s) / 100 in
          if currentPreset s = ''speech'' then
            Inr (s\<lparr>filters := Some
              \<lparr>lowShelf = (lowShelf f)\<lparr>gain := - 12 * strength\<rparr>,
               highShelf = (highShelf f)\<lparr>gain := - 8 * strength\<rparr>,
               bandpass = (bandpass f)\<lparr>frequency := 2500, gain := 6 * strength,
                                       Q := 8 / 10\<rparr>,
               compressor = (compressor f)\<lparr>threshold := - 20 - (10 * strength),
                                           ratio := 4 + (4 * strength)\<rparr>\<rparr>\<rparr>)
          else if currentPreset s = ''music-reduce'' then
            Inr (s\<lparr>filters := Some
              \<lparr>lowShelf = (lowShelf f)\<lparr>gain := - 15 * strength\<rparr>,
               highShelf = (highShelf f)\<lparr>gain := - 10 * strength\<rparr>,
               bandpass = (bandpass f)\<lparr>frequency := 1500, gain := 3 * strength,
                                       Q := 1 / 2\<rparr>,
               compressor = (compressor f)\<lparr>threshold := - 30,
                                           ratio := 6 + (6 * strength)\<rparr>\<rparr>\<rparr>)
          else
            Inr (s\<lparr>filters := Some
              \<lparr>lowShelf = (lowShelf f)\<lparr>gain := 0\<rparr>,
               highShelf = (highShelf f)\<lparr>gain := 0\<rparr>,
               bandpass = (bandpass f)\<lparr>gain := 0\<rparr>,
               compressor = (compressor f)\<lparr>threshold := - 24, ratio := 4\<rparr>\<rparr>\<rparr>))"

text \<open>
  \<open>updateBypass\<close>: the two opposite 50 ms ramps; the state keeps their end values.
\<close>

definition updateBypass :: "audiofx \<Rightarrow> js_error + audiofx" where
  "updateBypass s =
     (if \<not> audioContext s then Inr s
      else if bypassGain s = None \<or> processedGain s = None
        then Inl (TypeError ''Cannot read properties of null'')
      else if isProcessed s
        then Inr (s\<lparr>bypassGain := Some 0, processedGain := Some 1\<rparr>)
        else Inr (s\<lparr>bypassGain := Some 1, processedGain := Some 0\<rparr>))"

text \<open>
  \<open>setPreset\<close>: store the preset, apply it, then switch the A/B state to follow
  the preset. An exception of a step ends the call with the state reached so far.
\<close>

definition setPreset :: "string \<Rightarrow> audiofx \<Rightarrow> js_error option \<times> audiofx" where
  "setPreset preset s =
     (let s1 = s\<lparr>currentPreset := preset\<rparr> in
      case updateFilters s1 of
        Inl e \<Rightarrow> (Some e, s1)
      | Inr s2 \<Rightarrow>
          if preset \<noteq> ''off'' \<and> \<not> isProcessed s2 then
            (let s3 = s2\<lparr>isProcessed := True\<rparr> in
             case updateBypass s3 of Inl e \<Rightarrow> (Some e, s3) | Inr s4 \<Rightarrow> (None, s4))
          else if preset = ''off'' \<and> isProcessed s2 then
            (let s3 = s2\<lparr>isProcessed := False\<rparr> in
             case updateBypass s3 of Inl e \<Rightarrow> (Some e, s3) | Inr s4 \<Rightarrow> (None, s4))
          else (None, s2))"

text \<open>The click handler of the A/B toggle.\<close>

definition abToggleClick :: "audiofx \<Rightarrow> js_error option \<times> audiofx" where
  "abToggleClick s =
     (let s1 = s\<lparr>isProcessed := \<not> isProcessed s\<rparr> in
      case updateBypass s1 of Inl e \<Rightarrow> (Some e, s1) | Inr s2 \<Rightarrow> (None, s2))"

text \<open>The \<open>input\<close> handler of the strength slider, given the parsed value.\<close>

definition sliderInput :: "int \<Rightarrow> audiofx \<Rightarrow> js_error option \<times> audiofx" where
  "sliderInput v s =
     (let s1 = s\<lparr>reductionStrength := v\<rparr> in
      case updateFilters s1 of Inl e \<Rightarrow> (Some e, s1) | Inr s2 \<Rightarrow> (None, s2))"

definition getCurrentPreset :: "audiofx \<Rightarrow> string" where
  "getCurrentPreset s = currentPreset s"

definition isAudioProcessed :: "audiofx \<Rightarrow> bool" where
  "isAudioProcessed s \<longleftrightarrow> isProcessed s \<and> currentPreset s \<noteq> ''off''"

text \<open>
  \<open>getProcessedStream\<close>: \<open>null\<close> (here \<open>Inr False\<close>) without an audio context,
  otherwise a stream tapped from the compressor or, for \<open>'off'\<close>, from the source
  node. Either tap is a \<open>TypeError\<close> when the node it reads is still null.
\<close>

definition getProcessedStream :: "audiofx \<Rightarrow> js_error + bool" where
  "getProcessedStream s =
     (if \<not> audioContext s then Inr False
      else if currentPreset s \<noteq> ''off'' then
        (if filters s = None then Inl (TypeError ''Cannot read properties of null'')
         else Inr True)
      else
        (if \<not> sourceNode s then Inl (TypeError ''Cannot read properties of null'')
         else Inr True))"

text \<open>
  The parameter set in force after the preset and the strength were stored in the
  instance \<open>s\<close> and \<open>updateFilters\<close> ran: the read-out the properties below are
  stated on. It is \<open>None\<close> when \<open>updateFilters\<close> throws or no filter exists.
\<close>

definition computeParameters :: "audiofx \<Rightarrow> string \<Rightarrow> int \<Rightarrow> filter_bank option" where
  "computeParameters s preset strengthPercent =
     (case updateFilters (s\<lparr>currentPreset := preset, reductionStrength := strengthPercent\<rparr>) of
        Inl e \<Rightarrow> None
      | Inr t \<Rightarrow> filters t)"

text \<open>An instance whose audio graph was just built by \<open>initAudioContext\<close>.\<close>

definition fresh_graph :: audiofx where
  "fresh_graph =
     \<lparr>audioContext = True, sourceNode = True, filters = Some createFilters,
      currentPreset = ''off'',
      reductionStrength = 50, isProcessed = False,
      bypassGain = Some 1, processedGain = Some 0\<rparr>"

section \<open>modules/export.js: the WAV encoder\<close>

text \<open>
  A sample as JavaScript sees it: a finite number, an infinity or NaN. An
  \<open>AudioBuffer\<close> with its three read-only numbers and its channel arrays;
  \<open>length_frames\<close> is the field \<open>length\<close>.
\<close>

datatype f32 = Finite rat | PosInf | NegInf | NaN

type_synonym byte = nat

record audio_buffer =
  numberOfChannels :: nat
  sampleRate :: nat
  length_frames :: nat
  channelData :: "f32 list list"

text \<open>
  The \<open>DataView\<close> over the \<open>ArrayBuffer\<close> is the list of its bytes. A write outside
  the buffer throws a \<open>RangeError\<close>; a value wider than its field wraps around
  (\<open>ToUint8\<close>, \<open>ToUint16\<close>, \<open>ToUint32\<close>); \<open>true\<close> selects little-endian order.
\<close>

definition write_bytes :: "nat \<Rightarrow> byte list \<Rightarrow> byte list \<Rightarrow> js_error + byte list" where
  "write_bytes offset bs view =
     (if offset + length bs \<le> length view
      then Inr (take offset view @ bs @ drop (offset + length bs) view)
      else Inl (RangeError ''Offset is outside the bounds of the DataView''))"

definition u16le :: "nat \<Rightarrow> byte list" where
  "u16le v = [v mod 256, v div 256 mod 256]"

definition u32le :: "nat \<Rightarrow> byte list" where
  "u32le v = [v mod 256, v div 256 mod 256, v div 65536 mod 256, v div 16777216 mod 256]"

definition setUint8 :: "nat \<Rightarrow> nat \<Rightarrow> byte list \<Rightarrow> js_error + byte list" where
  "setUint8 offset v view = write_bytes offset [v mod 256] view"

definition setUint16 :: "nat \<Rightarrow> nat \<Rightarrow> byte list \<Rightarrow> js_error + byte list" where
  "setUint16 offset v view = write_bytes offset (u16le v) view"

definition setUint32 :: "nat \<Rightarrow> nat \<Rightarrow> byte list \<Rightarrow> js_error + byte list" where
  "setUint32 offset v view = write_bytes offset (u32le v) view"

text \<open>
  \<open>ToInt16\<close>: NaN and the infinities give 0; a finite number is truncated towards
  zero and reduced modulo \<open>2^16\<close> into the signed range.
\<close>

definition js_truncate :: "rat \<Rightarrow> int" where
  "js_truncate v = (if v < 0 then - \<lfloor>- v\<rfloor> else \<lfloor>v\<rfloor>)"

fun ToInt16 :: "f32 \<Rightarrow> int" where
  "ToInt16 (Finite v) =
     (let m = js_truncate v mod 65536 in if 32768 \<le> m then m - 65536 else m)"
| "ToInt16 PosInf = 0"
| "ToInt16 NegInf = 0"
| "ToInt16 NaN = 0"

definition setInt16 :: "nat \<Rightarrow> f32 \<Rightarrow> byte list \<Rightarrow> js_error + byte list" where
  "setInt16 offset x view = write_bytes offset (u16le (nat (ToInt16 x mod 65536))) view"

text \<open>The readers of the same view, used to state what a decoder finds.\<close>

definition getUint16 :: "nat \<Rightarrow> byte list \<Rightarrow> js_error + nat" where
  "getUint16 offset view =
     (if offset + 2 \<le> length view
      then Inr (view ! offset + 256 * view ! (offset + 1))
      else Inl (RangeError ''Offset is outside the bounds of the DataView''))"

definition getUint32 :: "nat \<Rightarrow> byte list \<Rightarrow> js_error + nat" where
  "getUint32 offset view =
     (if offset + 4 \<le> length view
      then Inr (view ! offset + 256 * view ! (offset + 1) + 65536 * view ! (offset + 2)
                + 16777216 * view ! (offset + 3))
      else Inl (RangeError ''Offset is outside the bounds of the DataView''))"

definition getInt16 :: "nat \<Rightarrow> byte list \<Rightarrow> js_error + int" where
  "getInt16 offset view =
     (case getUint16 offset view of
        Inl e \<Rightarrow> Inl e
      | Inr u \<Rightarrow> Inr (if 32768 \<le> u then int u - 65536 else int u))"

text \<open>
  The inverse of the encoder's scaling, which a reader of the file applies to a
  16-bit sample: the round trip is stated against it.
\<close>

definition decodeSample :: "int \<Rightarrow> rat" where
  "decodeSample k = (if k < 0 then of_int k / 32768 else of_int k / 32767)"

text \<open>A sequence of writes stops at the first one that throws.\<close>

fun run_writes ::
  "(byte list \<Rightarrow> js_error + byte list) list \<Rightarrow> byte list \<Rightarrow> js_error + byte list" where
  "run_writes [] view = Inr view"
| "run_writes (w # ws) view =
     (case w view of Inl e \<Rightarrow> Inl e | Inr view' \<Rightarrow> run_writes ws view')"

text \<open>The local function \<open>writeString\<close>: one \<open>setUint8\<close> per character code.\<close>

fun writeString :: "nat \<Rightarrow> string \<Rightarrow> byte list \<Rightarrow> js_error + byte list" where
  "writeString offset [] view = Inr view"
| "writeString offset (c # cs) view =
     (case setUint8 offset (of_char c) view of
        Inl e \<Rightarrow> Inl e
      | Inr view' \<Rightarrow> writeString (Suc offset) cs view')"

text \<open>
  \<open>Math.min(1, x)\<close> and \<open>Math.max(-1, x)\<close>, the choice of the scale factor, and the
  read \<open>channels[channel][i]\<close>, which is \<open>undefined\<close> (NaN under \<open>Math.min\<close>) past
  the end of the array.
\<close>

fun math_min_1 :: "f32 \<Rightarrow> f32" where
  "math_min_1 (Finite x) = Finite (min 1 x)"
| "math_min_1 PosInf = Finite 1"
| "math_min_1 NegInf = NegInf"
| "math_min_1 NaN = NaN"

fun math_max_neg1 :: "f32 \<Rightarrow> f32" where
  "math_max_neg1 (Finite x) = Finite (max (- 1) x)"
| "math_max_neg1 PosInf = PosInf"
| "math_max_neg1 NegInf = Finite (- 1)"
| "math_max_neg1 NaN = NaN"

fun intSample :: "f32 \<Rightarrow> f32" where
  "intSample (Finite sample) =
     Finite (if sample < 0 then sample * 32768 else sample * 32767)"
| "intSample PosInf = PosInf"
| "intSample NegInf = NegInf"
| "intSample NaN = NaN"

definition sample_at :: "f32 list \<Rightarrow> nat \<Rightarrow> f32" where
  "sample_at channel i = (if i < length channel then channel ! i else NaN)"

text \<open>\<open>getChannelData\<close> throws for an index that is not a channel of the buffer.\<close>

definition getChannelData :: "audio_buffer \<Rightarrow> nat \<Rightarrow> js_error + f32 list" where
  "getChannelData buffer i =
     (if i < length (channelData buffer) then Inr (channelData buffer ! i)
      else Inl (DOMException ''IndexSizeError''))"

fun push_channels :: "audio_buffer \<Rightarrow> nat list \<Rightarrow> f32 list list \<Rightarrow> js_error + f32 list list" where
  "push_channels buffer [] channels = Inr channels"
| "push_channels buffer (i # is) channels =
     (case getChannelData buffer i of
        Inl e \<Rightarrow> Inl e
      | Inr d \<Rightarrow> push_channels buffer is (channels @ [d]))"

text \<open>
  The two nested loops, carrying the running \<open>offset\<close> and the view: the inner one
  over the channel indices of a frame, the outer one over the frame indices. In
  \<open>audioBufferToWav\<close> the allocation of the zero-filled \<open>ArrayBuffer\<close> is taken to
  succeed, whatever its length (a host may refuse a very large one with a
  \<open>RangeError\<close>), and the sizes are natural numbers, exact as the doubles are
  below \<open>2^53\<close>.
\<close>

fun write_frame ::
  "f32 list list \<Rightarrow> nat \<Rightarrow> nat list \<Rightarrow> nat \<times> byte list \<Rightarrow> js_error + nat \<times> byte list" where
  "write_frame channels i [] st = Inr st"
| "write_frame channels i (channel # rest) (offset, view) =
     (let sample = math_max_neg1 (math_min_1 (sample_at (channels ! channel) i)) in
      case setInt16 offset (intSample sample) view of
        Inl e \<Rightarrow> Inl e
      | Inr view' \<Rightarrow> write_frame channels i rest (offset + 2, view'))"

fun write_frames ::
  "f32 list list \<Rightarrow> nat \<Rightarrow> nat list \<Rightarrow> nat \<times> byte list \<Rightarrow> js_error + nat \<times> byte list" where
  "write_frames channels numChannels [] st = Inr st"
| "write_frames channels numChannels (i # is) st =
     (case write_frame channels i [0..<numChannels] st of
        Inl e \<Rightarrow> Inl e
      | Inr st' \<Rightarrow> write_frames channels numChannels is st')"

definition audioBufferToWav :: "audio_buffer \<Rightarrow> js_error + byte list" where
  "audioBufferToWav buffer =
     (let numChannels = numberOfChannels buffer;
          sampleRate = sampleRate buffer;
          format = 1;
          bitDepth = 16;
          bytesPerSample = bitDepth div 8;
          blockAlign = numChannels * bytesPerSample;
          dataLength = length_frames buffer * blockAlign;
          bufferLength = 44 + dataLength;
          view = replicate bufferLength 0
      in case run_writes
           [writeString 0 ''RIFF'',
            setUint32 4 (bufferLength - 8),
            writeString 8 ''WAVE'',
            writeString 12 ''fmt '',
            setUint32 16 16,
            setUint16 20 format,
            setUint16 22 numChannels,
            setUint32 24 sampleRate,
            setUint32 28 (sampleRate * blockAlign),
            setUint16 32 blockAlign,
            setUint16 34 bitDepth,
            writeString 36 ''data'',
            setUint32 40 dataLength] view of
        Inl e \<Rightarrow> Inl e
      | Inr view1 \<Rightarrow>
          (case push_channels buffer [0..<numChannels] [] of
             Inl e \<Rightarrow> Inl e
           | Inr channels \<Rightarrow>
               (case write_frames channels numChannels [0..<length_frames buffer] (44, view1) of
                  Inl e \<Rightarrow> Inl e
                | Inr (offset, view2) \<Rightarrow> Inr view2)))"

subsection \<open>The encoder's output in closed form\<close>

text \<open>
  The 44 header bytes in file order, as the thirteen header writes leave them.
\<close>

definition wav_header :: "nat \<Rightarrow> nat \<Rightarrow> nat \<Rightarrow> byte list" where
  "wav_header numChannels rate dataLength =
     [82, 73, 70, 70] @ u32le (36 + dataLength) @ [87, 65, 86, 69] @ [102, 109, 116, 32]
     @ u32le 16 @ u16le 1 @ u16le numChannels @ u32le rate
     @ u32le (rate * (numChannels * 2)) @ u16le (numChannels * 2) @ u16le 16
     @ [100, 97, 116, 97] @ u32le dataLength"

text \<open>
  The two bytes the inner loop writes for one sample read from a channel array.
\<close>

definition sample_bytes :: "f32 \<Rightarrow> byte list" where
  "sample_bytes x =
     u16le (nat (ToInt16 (intSample (math_max_neg1 (math_min_1 x))) mod 65536))"

text \<open>
  The bytes of the frame \<open>i\<close>, sample after sample over the channel indices.
\<close>

definition frame_bytes :: "f32 list list \<Rightarrow> nat \<Rightarrow> nat list \<Rightarrow> byte list" where
  "frame_bytes channels i cs = concat (map (\<lambda>c. sample_bytes (sample_at (channels ! c) i)) cs)"

text \<open>
  The bytes of all frames of the outer loop.
\<close>

definition frames_bytes :: "f32 list list \<Rightarrow> nat \<Rightarrow> nat list \<Rightarrow> byte list" where
  "frames_bytes channels numChannels js =
     concat (map (\<lambda>i. frame_bytes channels i [0..<numChannels]) js)"

text \<open>
  Reading a field of the encoder's result, when it has one.
\<close>

definition and_then :: "js_error + 'a \<Rightarrow> ('a \<Rightarrow> js_error + 'b) \<Rightarrow> js_error + 'b" where
  "and_then r f = (case r of Inl e \<Rightarrow> Inl e | Inr x \<Rightarrow> f x)"

text \<open>
  An \<open>AudioBuffer\<close> of the host: as many channel arrays as \<open>numberOfChannels\<close>,
  each of \<open>length\<close> samples.
\<close>

definition well_formed :: "audio_buffer \<Rightarrow> bool" where
  "well_formed b \<longleftrightarrow>
     length (channelData b) = numberOfChannels b
     \<and> (\<forall>ch \<in> set (channelData b). length ch = length_frames b)"

text \<open>
  Buffers used as concrete inputs: the 2-channel, 44100 Hz, 1000-frame buffer, a
  2-channel buffer of \<open>2^30\<close> frames, and a 3-frame one with distinct samples.
\<close>

definition example_buffer :: audio_buffer where
  "example_buffer =
     \<lparr>numberOfChannels = 2, sampleRate = 44100, length_frames = 1000,
      channelData = [replicate 1000 (Finite 0), replicate 1000 (Finite 0)]\<rparr>"

definition long_buffer :: audio_buffer where
  "long_buffer =
     \<lparr>numberOfChannels = 2, sampleRate = 44100, length_frames = 1073741824,
      channelData = [replicate 1073741824 (Finite 0), replicate 1073741824 (Finite 0)]\<rparr>"

definition small_buffer :: audio_buffer where
  "small_buffer =
     \<lparr>numberOfChannels = 2, sampleRate = 48000, length_frames = 3,
      channelData = [[Finite (1 / 2), Finite (- 1), Finite 1],
                     [Finite 0, Finite (- 1 / 3), Finite (1 / 4)]]\<rparr>"

section \<open>modules/export.js: the Exporter class and what it acts on\<close>

text \<open>
  The video element with the three attributes the exporter reads and writes; the
  state of a \<open>MediaRecorder\<close>; the values a capture's closures (\<open>onEnded\<close> and
  \<open>abort\<close>) hold: the saved position, the recorder and the progress timer.
\<close>

record media_element =
  currentTime :: rat
  duration :: rat
  paused :: bool

datatype recorder_state = Inactive | Recording

record capture =
  startTime :: rat
  mediaRecorder :: nat
  progressInterval :: nat
  mimeType :: string

text \<open>
  The transcoding engine instance: whether its core is loaded, and the names in its
  working storage. The calls made on the engine and its loader are logged in order.
\<close>

record ffmpeg_instance =
  loaded :: bool
  storage :: "string list"

datatype engine_call =
  LoadEngine | WriteFile string | Exec "string list" | ReadFile string | DeleteFile string

datatype blob = WavBlob "byte list" | RecordedBlob string | Mp4Blob

text \<open>
  Everything the exporter reads or changes: its own fields (\<open>ffmpeg\<close>,
  \<open>isLoading\<close>, \<open>isExporting\<close>, \<open>abortController\<close>), the fields of \<open>app\<close> it
  uses, the video element and the export modal of the document, the recorders, timers
  and \<open>ended\<close> listeners that exports created, and what was shown and delivered.
\<close>

record world =
  ffmpeg :: "ffmpeg_instance option"
  isLoading :: bool
  isExporting :: bool
  abortController :: "capture option"
  audioFx :: "audiofx option"
  videoFile :: "byte list option"
  videoName :: "string option"
  video :: "media_element option"
  modalHidden :: bool
  modalTitle :: string
  exportPercent :: f32
  exportStatus :: string
  recorders :: "recorder_state list"
  intervals :: "nat list"
  timerCount :: nat
  endedListeners :: "capture list"
  pendingHide :: bool
  toasts :: "(string \<times> string) list"
  downloads :: "(string \<times> blob) list"
  engineCalls :: "engine_call list"

text \<open>
  What the host decides during an export: codec support, whether the recorder can be
  built, whether \<open>play()\<close> resolves, the decoded audio (if decoding succeeds), how
  loading the engine ends (for a load this call starts, and for one already in
  flight, which may never settle), and how the engine's operations end. A failure of
  the engine is taken to be an \<open>Error\<close> object carrying a message.
\<close>

datatype load_outcome = ImportFails string | CoreLoadFails string | Loaded

datatype exec_outcome = ExecRejects js_error | ExecDone bool

record env =
  opusSupported :: bool
  recorderError :: "js_error option"
  playError :: "js_error option"
  decodedAudio :: "audio_buffer option"
  loadOutcome :: load_outcome
  pendingLoadOutcome :: "load_outcome option"
  fileReadError :: "js_error option"
  writeFileError :: "js_error option"
  execOutcome :: exec_outcome
  execProgress :: "rat list"

text \<open>How a call of an asynchronous step ends: it returns, throws, or never resumes.\<close>

datatype outcome = Returned world | Thrown js_error world | Suspended world

text \<open>Which way an export entry point went (the functions themselves return nothing).\<close>

datatype export_path =
  Busy | NoPreset | NoVideo | Failed js_error | Capturing | Delivered | Stuck

subsection \<open>Small methods\<close>

definition showToast :: "string \<Rightarrow> string \<Rightarrow> world \<Rightarrow> world" where
  "showToast msg severity w = w\<lparr>toasts := toasts w @ [(msg, severity)]\<rparr>"

definition updateExportProgress :: "f32 \<Rightarrow> world \<Rightarrow> world" where
  "updateExportProgress percent w = w\<lparr>exportPercent := percent\<rparr>"

definition updateExportStatus :: "string \<Rightarrow> world \<Rightarrow> world" where
  "updateExportStatus s w = w\<lparr>exportStatus := s\<rparr>"

definition showExportModal :: "string \<Rightarrow> world \<Rightarrow> world" where
  "showExportModal title w =
     updateExportProgress (Finite 0) (w\<lparr>modalTitle := title, modalHidden := False\<rparr>)"

definition hideExportModal :: "world \<Rightarrow> world" where
  "hideExportModal w = w\<lparr>modalHidden := True\<rparr>"

definition downloadBlob :: "blob \<Rightarrow> string \<Rightarrow> world \<Rightarrow> world" where
  "downloadBlob b filename w = w\<lparr>downloads := downloads w @ [(filename, b)]\<rparr>"

text \<open>
  \<open>name.replace(/\.[^/.]+$/, '')\<close>: a final dot followed by at least one character,
  none of them a slash, is cut off with what follows it.
\<close>

definition strip_extension :: "string \<Rightarrow> string" where
  "strip_extension name =
     (let suffix = takeWhile (\<lambda>c. c \<noteq> CHR ''.'') (rev name)
      in if length suffix < length name \<and> suffix \<noteq> [] \<and> CHR ''/'' \<notin> set suffix
         then take (length name - length suffix - 1) name
         else name)"

definition getExportFilename :: "string \<Rightarrow> world \<Rightarrow> string" where
  "getExportFilename extension w =
     (let stripped = (case videoName w of None \<Rightarrow> [] | Some n \<Rightarrow> strip_extension n);
          baseName = (if stripped = [] then ''video'' else stripped);
          current = (case audioFx w of None \<Rightarrow> [] | Some a \<Rightarrow> getCurrentPreset a);
          preset = (if current = [] then ''original'' else current)
      in baseName @ ''_'' @ preset @ ''.'' @ extension)"

subsection \<open>Audio export\<close>

text \<open>
  \<open>downloadProcessedAudio\<close>, run to the end of its body: the three early returns,
  then the \<open>try\<close> block with its \<open>catch\<close>. The recorder it builds is the next entry
  of \<open>recorders\<close>; a rejected \<open>play()\<close> leaves the element as the code set it.
\<close>

definition audio_catch :: "js_error \<Rightarrow> world \<Rightarrow> export_path \<times> world" where
  "audio_catch e w =
     (Failed e,
      (hideExportModal (showToast (''Audio export failed: '' @ message e) ''error'' w))
        \<lparr>isExporting := False\<rparr>)"

definition downloadProcessedAudio :: "env \<Rightarrow> world \<Rightarrow> export_path \<times> world" where
  "downloadProcessedAudio e w =
     (if isExporting w then (Busy, showToast ''Export already in progress'' ''warning'' w)
      else case audioFx w of
        None \<Rightarrow> (NoPreset, showToast ''Please select an audio preset first'' ''warning'' w)
      | Some fx \<Rightarrow>
          if \<not> isAudioProcessed fx
          then (NoPreset, showToast ''Please select an audio preset first'' ''warning'' w)
          else case video w of
            None \<Rightarrow> (NoVideo, w)
          | Some v \<Rightarrow>
              let w1 = updateExportStatus ''Preparing audio stream...''
                         (showExportModal ''Exporting Audio'' (w\<lparr>isExporting := True\<rparr>))
              in case getProcessedStream fx of
                Inl err \<Rightarrow> audio_catch err w1
              | Inr False \<Rightarrow> audio_catch (Error ''Could not get processed audio stream'') w1
              | Inr True \<Rightarrow>
                  (case recorderError e of
                     Some err \<Rightarrow> audio_catch err w1
                   | None \<Rightarrow>
                       let mime = (if opusSupported e then ''audio/webm;codecs=opus''
                                   else ''audio/webm'');
                           rec = length (recorders w1);
                           w2 = (updateExportStatus ''Recording processed audio...'' w1)
                                  \<lparr>recorders := recorders w1 @ [Recording]\<rparr>;
                           t0 = currentTime v;
                           w3 = w2\<lparr>video := Some (v\<lparr>currentTime := 0\<rparr>)\<rparr>
                       in case playError e of
                         Some err \<Rightarrow> audio_catch err w3
                       | None \<Rightarrow>
                           let c = \<lparr>startTime = t0, mediaRecorder = rec,
                                    progressInterval = timerCount w3, mimeType = mime\<rparr>
                           in (Capturing,
                               w3\<lparr>video := Some (v\<lparr>currentTime := 0, paused := False\<rparr>),
                                  intervals := intervals w3 @ [timerCount w3],
                                  timerCount := Suc (timerCount w3),
                                  endedListeners := endedListeners w3 @ [c],
                                  abortController := Some c\<rparr>)))"

text \<open>
  The timer callback shows \<open>(currentTime / duration) * 70\<close>. The duration of the
  element is a finite number here; for the duration 0 the quotient is NaN or an
  infinity, as JavaScript's division gives it.
\<close>

definition position_share :: "rat \<Rightarrow> rat \<Rightarrow> f32" where
  "position_share t d =
     (if d = 0 then (if t = 0 then NaN else if 0 < t then PosInf else NegInf)
      else Finite (t / d * 70))"

definition progressTick :: "capture \<Rightarrow> world \<Rightarrow> world" where
  "progressTick c w =
     (if progressInterval c \<in> set (intervals w)
      then (case video w of
              None \<Rightarrow> w
            | Some v \<Rightarrow> updateExportProgress (position_share (currentTime v) (duration v)) w)
      else w)"

text \<open>
  The common body of \<open>onEnded\<close> and \<open>abort\<close>: clear the timer, stop the recorder
  (an \<open>InvalidStateError\<close> when it is not recording, which ends the body), remove the
  \<open>ended\<close> listener, write the saved position back, pause.
\<close>

definition stop_capture :: "capture \<Rightarrow> world \<Rightarrow> js_error option \<times> world" where
  "stop_capture c w =
     (let w1 = w\<lparr>intervals := removeAll (progressInterval c) (intervals w)\<rparr>
      in if mediaRecorder c < length (recorders w1)
            \<and> recorders w1 ! mediaRecorder c = Recording
         then (None,
               w1\<lparr>recorders := (recorders w1)[mediaRecorder c := Inactive],
                  endedListeners := removeAll c (endedListeners w1),
                  video := map_option (\<lambda>v. v\<lparr>currentTime := startTime c, paused := True\<rparr>)
                             (video w1)\<rparr>)
         else (Some (DOMException ''InvalidStateError''), w1))"

definition onEnded :: "capture \<Rightarrow> world \<Rightarrow> js_error option \<times> world" where
  "onEnded c w = (if c \<in> set (endedListeners w) then stop_capture c w else (None, w))"

definition abort :: "capture \<Rightarrow> world \<Rightarrow> js_error option \<times> world" where
  "abort c w = stop_capture c w"

text \<open>
  \<open>convertToWav\<close> and the recorder's \<open>onstop\<close> handler: the WAV file when decoding
  and encoding succeed, the recorded container otherwise.
\<close>

definition convertToWav :: "env \<Rightarrow> js_error + byte list" where
  "convertToWav e =
     (case decodedAudio e of
        None \<Rightarrow> Inl (DOMException ''EncodingError'')
      | Some audioBuffer \<Rightarrow> audioBufferToWav audioBuffer)"

definition onstop :: "env \<Rightarrow> capture \<Rightarrow> world \<Rightarrow> world" where
  "onstop e c w =
     (let w1 = updateExportProgress (Finite 80) (updateExportStatus ''Creating audio file...'' w);
          w2 = (case convertToWav e of
                  Inr wav \<Rightarrow>
                    showToast ''Audio exported successfully!'' ''success''
                      (downloadBlob (WavBlob wav) (getExportFilename ''wav'' w1) w1)
                | Inl err \<Rightarrow>
                    showToast ''Audio exported as WebM (WAV conversion unavailable)'' ''success''
                      (downloadBlob (RecordedBlob (mimeType c)) (getExportFilename ''webm'' w1) w1))
      in (hideExportModal w2)\<lparr>isExporting := False\<rparr>)"

definition cancelExport :: "world \<Rightarrow> js_error option \<times> world" where
  "cancelExport w =
     (case (case abortController w of None \<Rightarrow> (None, w) | Some c \<Rightarrow> abort c w) of
        (Some err, w1) \<Rightarrow> (Some err, w1)
      | (None, w1) \<Rightarrow>
          (None, showToast ''Export cancelled'' ''warning''
                   ((hideExportModal w1)\<lparr>isExporting := False\<rparr>)))"

subsection \<open>Video export\<close>

text \<open>
  \<open>loadFFmpeg\<close>: nothing when an instance exists; when a load is in flight, wait
  for its \<open>isLoading\<close> flag to drop and return whatever that load left; otherwise
  load, with the flag reset in \<open>finally\<close>. The instance is created before its core
  is loaded, so a failing core leaves an instance that is not loaded.
\<close>

definition apply_load :: "load_outcome \<Rightarrow> world \<Rightarrow> world" where
  "apply_load l w =
     (case l of
        ImportFails m \<Rightarrow> w\<lparr>isLoading := False\<rparr>
      | CoreLoadFails m \<Rightarrow> w\<lparr>ffmpeg := Some \<lparr>loaded = False, storage = []\<rparr>, isLoading := False\<rparr>
      | Loaded \<Rightarrow> w\<lparr>ffmpeg := Some \<lparr>loaded = True, storage = []\<rparr>, isLoading := False\<rparr>)"

definition loadFFmpeg :: "env \<Rightarrow> world \<Rightarrow> outcome" where
  "loadFFmpeg e w =
     (if ffmpeg w \<noteq> None then Returned w
      else if isLoading w then
        (case pendingLoadOutcome e of
           None \<Rightarrow> Suspended w
         | Some l \<Rightarrow> Returned (apply_load l w))
      else
        let w1 = w\<lparr>isLoading := True, engineCalls := engineCalls w @ [LoadEngine]\<rparr>
        in case loadOutcome e of
          ImportFails m \<Rightarrow>
            Thrown (Error (''Failed to load ffmpeg.wasm: '' @ m)) (apply_load (ImportFails m) w1)
        | CoreLoadFails m \<Rightarrow>
            Thrown (Error (''Failed to load ffmpeg.wasm: '' @ m)) (apply_load (CoreLoadFails m) w1)
        | Loaded \<Rightarrow> Returned (apply_load Loaded w1))"

text \<open>
  The engine's operations on its working storage. Each is logged, needs the
  instance (a \<open>TypeError\<close> on \<open>null\<close>) and a loaded core; reading or deleting a name
  that is not stored fails.
\<close>

definition not_loaded :: js_error where
  "not_loaded = Error ''ffmpeg is not loaded, call `await ffmpeg.load()` first''"

definition engine_op ::
  "engine_call \<Rightarrow> (ffmpeg_instance \<Rightarrow> js_error + ffmpeg_instance) \<Rightarrow> world \<Rightarrow> outcome" where
  "engine_op call f w =
     (case ffmpeg w of
        None \<Rightarrow> Thrown (TypeError ''Cannot read properties of null'') w
      | Some inst \<Rightarrow>
          let w1 = w\<lparr>engineCalls := engineCalls w @ [call]\<rparr>
          in if \<not> loaded inst then Thrown not_loaded w1
             else case f inst of
               Inl err \<Rightarrow> Thrown err w1
             | Inr inst' \<Rightarrow> Returned (w1\<lparr>ffmpeg := Some inst'\<rparr>))"

definition writeFile :: "env \<Rightarrow> string \<Rightarrow> world \<Rightarrow> outcome" where
  "writeFile e name w =
     engine_op (WriteFile name)
       (\<lambda>inst. case writeFileError e of
                 Some err \<Rightarrow> Inl err
               | None \<Rightarrow> Inr (inst\<lparr>storage := List.insert name (storage inst)\<rparr>)) w"

definition exec :: "env \<Rightarrow> string list \<Rightarrow> string \<Rightarrow> world \<Rightarrow> outcome" where
  "exec e args outputName w =
     engine_op (Exec args)
       (\<lambda>inst. case execOutcome e of
                 ExecRejects err \<Rightarrow> Inl err
               | ExecDone written \<Rightarrow>
                   Inr (if written then inst\<lparr>storage := List.insert outputName (storage inst)\<rparr>
                        else inst)) w"

definition readFile :: "string \<Rightarrow> world \<Rightarrow> outcome" where
  "readFile name w =
     engine_op (ReadFile name)
       (\<lambda>inst. if name \<in> set (storage inst) then Inr inst
               else Inl (Error ''ErrnoError: FS error'')) w"

definition deleteFile :: "string \<Rightarrow> world \<Rightarrow> outcome" where
  "deleteFile name w =
     engine_op (DeleteFile name)
       (\<lambda>inst. if name \<in> set (storage inst)
               then Inr (inst\<lparr>storage := removeAll name (storage inst)\<rparr>)
               else Inl (Error ''ErrnoError: FS error'')) w"

text \<open>
  The filter expression chosen for the preset, split at spaces with the empty pieces
  dropped, as it is spliced into the engine's arguments.
\<close>

definition audioFilter :: "string \<Rightarrow> string list" where
  "audioFilter preset =
     (if preset = ''speech'' then
        [''-af'',
         [CHR 0x22] @ ''highpass=f=200,lowpass=f=4000,equalizer=f=2000:width_type=o:width=2:g=3,compand=attacks=0:points=-80/-80|-45/-45|-27/-15|0/-9|20/-6:gain=3'' @ [CHR 0x22]]
      else if preset = ''music-reduce'' then
        [''-af'',
         [CHR 0x22] @ ''highpass=f=150,lowpass=f=5000,equalizer=f=200:width_type=o:width=2:g=-10,equalizer=f=5000:width_type=o:width=2:g=-8,compand=attacks=0.01:points=-80/-80|-50/-50|-30/-20|0/-12|20/-9:gain=4'' @ [CHR 0x22]]
      else [])"

definition exec_args :: "string \<Rightarrow> string list" where
  "exec_args preset =
     (if audioFilter preset \<noteq> []
      then [''-i'', ''input.mp4'', ''-c:v'', ''copy'', ''-c:a'', ''aac'']
           @ audioFilter preset @ [''-y'', ''output.mp4'']
      else [''-i'', ''input.mp4'', ''-c'', ''copy'', ''-y'', ''output.mp4''])"

text \<open>The progress listener, once per progress event of the run.\<close>

fun progress_events :: "rat list \<Rightarrow> world \<Rightarrow> world" where
  "progress_events [] w = w"
| "progress_events (p # ps) w = progress_events ps (updateExportProgress (Finite (60 + p * 35)) w)"

text \<open>
  The \<open>try\<close> block of \<open>downloadProcessedVideo\<close>, statement by statement; the first
  step that throws or never resumes ends it.
\<close>

definition video_try :: "env \<Rightarrow> world \<Rightarrow> outcome" where
  "video_try e w0 =
     (case loadFFmpeg e w0 of
        Suspended w \<Rightarrow> Suspended w
      | Thrown err w \<Rightarrow> Thrown err w
      | Returned w1 \<Rightarrow>
          if video w1 = None \<or> videoFile w1 = None then
            Thrown (Error ''Video file required for export. URL-based videos cannot be re-encoded.'') w1
          else
            let w2 = updateExportProgress (Finite 20) (updateExportStatus ''Processing video...'' w1)
            in case fileReadError e of
              Some err \<Rightarrow> Thrown err w2
            | None \<Rightarrow>
                (case writeFile e ''input.mp4'' w2 of
                   Suspended w \<Rightarrow> Suspended w
                 | Thrown err w \<Rightarrow> Thrown err w
                 | Returned w3 \<Rightarrow>
                     let w4 = updateExportProgress (Finite 40)
                                (updateExportStatus ''Extracting and processing audio...'' w3);
                         current = (case audioFx w4 of None \<Rightarrow> [] | Some a \<Rightarrow> getCurrentPreset a);
                         preset = (if current = [] then ''off'' else current);
                         w5 = updateExportProgress (Finite 60)
                                (updateExportStatus ''Encoding video with processed audio...'' w4);
                         outputName = ''output.mp4''
                     in case exec e (exec_args preset) outputName w5 of
                       Suspended w \<Rightarrow> Suspended w
                     | Thrown err w \<Rightarrow> Thrown err (progress_events (execProgress e) w)
                     | Returned w6 \<Rightarrow>
                         let w7 = updateExportProgress (Finite 95)
                                    (updateExportStatus ''Preparing download...''
                                       (progress_events (execProgress e) w6))
                         in case readFile outputName w7 of
                           Suspended w \<Rightarrow> Suspended w
                         | Thrown err w \<Rightarrow> Thrown err w
                         | Returned w8 \<Rightarrow>
                             let w9 = downloadBlob Mp4Blob (getExportFilename ''mp4'' w8) w8
                             in case deleteFile ''input.mp4'' w9 of
                               Suspended w \<Rightarrow> Suspended w
                             | Thrown err w \<Rightarrow> Thrown err w
                             | Returned w10 \<Rightarrow>
                                 (case deleteFile outputName w10 of
                                    Suspended w \<Rightarrow> Suspended w
                                  | Thrown err w \<Rightarrow> Thrown err w
                                  | Returned w11 \<Rightarrow>
                                      Returned
                                        ((showToast ''Video exported successfully!'' ''success''
                                            (updateExportProgress (Finite 100) w11))
                                           \<lparr>pendingHide := True\<rparr>))))"

text \<open>The \<open>catch\<close> block: the message shown depends on the text of the error.\<close>

definition video_catch :: "js_error \<Rightarrow> world \<Rightarrow> world" where
  "video_catch err w =
     (let msg =
            (if str_includes (message err) ''SharedArrayBuffer''
             then ''Video export requires HTTPS with proper headers. Try audio export instead.''
             else if str_includes (message err) ''URL-based'' then message err
             else ''Video export failed'')
      in (hideExportModal (showToast msg ''error'' w))\<lparr>isExporting := False\<rparr>)"

definition downloadProcessedVideo :: "env \<Rightarrow> world \<Rightarrow> export_path \<times> world" where
  "downloadProcessedVideo e w =
     (if isExporting w then (Busy, showToast ''Export already in progress'' ''warning'' w)
      else
        let w1 = updateExportStatus ''Loading ffmpeg.wasm (this may take a moment)...''
                   (showExportModal ''Exporting Video'' (w\<lparr>isExporting := True\<rparr>))
        in case video_try e w1 of
          Suspended w2 \<Rightarrow> (Stuck, w2)
        | Thrown err w2 \<Rightarrow> (Failed err, video_catch err w2)
        | Returned w2 \<Rightarrow> (Delivered, w2))"

text \<open>The 500 ms timer set after a delivered video.\<close>

definition hideTimeout :: "world \<Rightarrow> world" where
  "hideTimeout w =
     (if pendingHide w then (hideExportModal w)\<lparr>isExporting := False, pendingHide := False\<rparr>
      else w)"

subsection \<open>Concrete states\<close>

text \<open>
  The audio instance after \<open>'speech'\<close> was chosen on a fresh graph, and the exporter
  right after construction in a watch view over a one-minute video that is playing at
  0:30: supplied as a file, or by URL (then \<open>app.videoFile\<close> is null).
\<close>

definition speech_fx :: audiofx where
  "speech_fx = snd (setPreset ''speech'' fresh_graph)"

text \<open>The same instance after the A/B toggle was clicked back to the original.\<close>

definition toggled_fx :: audiofx where
  "toggled_fx = snd (abToggleClick speech_fx)"

definition file_world :: world where
  "file_world =
     \<lparr>ffmpeg = None, isLoading = False, isExporting = False, abortController = None,
      audioFx = Some speech_fx, videoFile = Some [0, 0, 0, 24], videoName = Some ''talk.mp4'',
      video = Some \<lparr>currentTime = 30, duration = 60, paused = False\<rparr>,
      modalHidden = True, modalTitle = [], exportPercent = Finite 0, exportStatus = [],
      recorders = [], intervals = [], timerCount = 0, endedListeners = [],
      pendingHide = False, toasts = [], downloads = [], engineCalls = []\<rparr>"

definition url_world :: world where
  "url_world = file_world\<lparr>videoFile := None\<rparr>"

definition fair_env :: env where
  "fair_env =
     \<lparr>opusSupported = True, recorderError = None, playError = None, decodedAudio = None,
      loadOutcome = Loaded, pendingLoadOutcome = None, fileReadError = None,
      writeFileError = None, execOutcome = ExecDone True, execProgress = [1 / 2, 1]\<rparr>"

text \<open>The state after an audio export was started there and its capture is running.\<close>

definition capturing_world :: world where
  "capturing_world = snd (downloadProcessedAudio fair_env file_world)"

text \<open>
  A second capture overlapping a cancelled one: the first capture's closure, the state
  after \<open>cancelExport\<close>, the state after a second audio export was started from
  there, and the state once the first recorder's \<open>onstop\<close> handler has run.
\<close>

definition first_capture :: capture where
  "first_capture = \<lparr>startTime = 30, mediaRecorder = 0, progressInterval = 0,
                      mimeType = ''audio/webm;codecs=opus''\<rparr>"

definition cancelled_world :: world where
  "cancelled_world = snd (cancelExport capturing_world)"

definition second_capture_world :: world where
  "second_capture_world = snd (downloadProcessedAudio fair_env cancelled_world)"

definition overlapped_world :: world where
  "overlapped_world = onstop fair_env first_capture second_capture_world"

text \<open>The watch view with the preset still chosen and the A/B toggle back on the original.\<close>

definition toggled_world :: world where
  "toggled_world = file_world\<lparr>audioFx := Some toggled_fx\<rparr>"

text \<open>The error thrown for a source that is not a local file.\<close>

definition url_error :: js_error where
  "url_error = Error ''Video file required for export. URL-based videos cannot be re-encoded.''"

text \<open>The URL-sourced view with the engine already loaded by an earlier export.\<close>

definition cached_url_world :: world where
  "cached_url_world = url_world\<lparr>ffmpeg := Some \<lparr>loaded = True, storage = []\<rparr>\<rparr>"

text \<open>A host in which the transcode is rejected.\<close>

definition exec_fails_env :: env where
  "exec_fails_env = fair_env\<lparr>execOutcome := ExecRejects (Error ''Aborted()'')\<rparr>"

text \<open>The engine calls that delete an entry of the working storage.\<close>

fun is_delete :: "engine_call \<Rightarrow> bool" where
  "is_delete (DeleteFile n) = True"
| "is_delete c = False"

section \<open>Properties of the preset mapping\<close>

lemma computeParameters_speech:
  assumes "audioContext s" and "filters s = Some f"
  shows "computeParameters s ''speech'' n = Some
           \<lparr>lowShelf = (lowShelf f)\<lparr>gain := - 12 * (of_int n / 100)\<rparr>,
            highShelf = (highShelf f)\<lparr>gain := - 8 * (of_int n / 100)\<rparr>,
            bandpass = (bandpass f)\<lparr>frequency := 2500, gain := 6 * (of_int n / 100),
                                    Q := 8 / 10\<rparr>,
            compressor = (compressor f)\<lparr>threshold := - 20 - (10 * (of_int n / 100)),
                                        ratio := 4 + (4 * (of_int n / 100))\<rparr>\<rparr>"
  using assms by (simp add: computeParameters_def updateFilters_def)

lemma computeParameters_music:
  assumes "audioContext s" and "filters s = Some f"
  shows "computeParameters s ''music-reduce'' n = Some
           \<lparr>lowShelf = (lowShelf f)\<lparr>gain := - 15 * (of_int n / 100)\<rparr>,
            highShelf = (highShelf f)\<lparr>gain := - 10 * (of_int n / 100)\<rparr>,
            bandpass = (bandpass f)\<lparr>frequency := 1500, gain := 3 * (of_int n / 100),
                                    Q := 1 / 2\<rparr>,
            compressor = (compressor f)\<lparr>threshold := - 30,
                                        ratio := 6 + (6 * (of_int n / 100))\<rparr>\<rparr>"
  using assms by (simp add: computeParameters_def updateFilters_def)

lemma computeParameters_default:
  assumes "audioContext s" and "filters s = Some f"
    and "preset \<noteq> ''speech''" and "preset \<noteq> ''music-reduce''"
  shows "computeParameters s preset n = Some
           \<lparr>lowShelf = (lowShelf f)\<lparr>gain := 0\<rparr>,
            highShelf = (highShelf f)\<lparr>gain := 0\<rparr>,
            bandpass = (bandpass f)\<lparr>gain := 0\<rparr>,
            compressor = (compressor f)\<lparr>threshold := - 24, ratio := 4\<rparr>\<rparr>"
  using assms by (simp add: computeParameters_def updateFilters_def)

lemma scaled_mono:
  fixes c :: rat
  assumes "0 \<le> c" and "m \<le> (n::int)"
  shows "c * (of_int m / 100) \<le> c * (of_int n / 100)"
proof -
  have "(of_int m :: rat) / 100 \<le> of_int n / 100"
    using assms(2) by (simp add: divide_right_mono)
  then show ?thesis
    using assms(1) by (rule mult_left_mono)
qed

lemma scaled_nonneg:
  fixes c :: rat
  assumes "0 \<le> c" and "0 \<le> (n::int)"
  shows "0 \<le> c * (of_int n / 100)"
  using assms by simp

text \<open>
  C6. With the preset \<open>'off'\<close>, whatever the strength, the three filter gains are 0
  and the compressor threshold and ratio are the values \<open>createFilters\<close> gave them;
  two strengths give the same parameter set.
\<close>

theorem off_is_neutral:
  assumes "audioContext s" and "filters s = Some f"
  shows "\<exists>p. computeParameters s ''off'' strengthPercent = Some p
           \<and> gain (lowShelf p) = 0 \<and> gain (highShelf p) = 0 \<and> gain (bandpass p) = 0
           \<and> threshold (compressor p) = threshold (compressor createFilters)
           \<and> ratio (compressor p) = ratio (compressor createFilters)
           \<and> computeParameters s ''off'' otherStrength = Some p"
  using assms by (simp add: computeParameters_default createFilters_def)

theorem off_is_neutral_witness:
  "\<exists>p. computeParameters fresh_graph ''off'' 73 = Some p
           \<and> gain (lowShelf p) = 0 \<and> gain (highShelf p) = 0 \<and> gain (bandpass p) = 0
           \<and> threshold (compressor p) = threshold (compressor createFilters)
           \<and> ratio (compressor p) = ratio (compressor createFilters)
           \<and> computeParameters fresh_graph ''off'' 0 = Some p"
proof -
  have a: "audioContext fresh_graph" by (simp add: fresh_graph_def)
  have b: "filters fresh_graph = Some createFilters" by (simp add: fresh_graph_def)
  show ?thesis by (rule off_is_neutral [OF a b])
qed

text \<open>
  C7, as stated, fails on the code: on a freshly built graph the preset \<open>'speech'\<close>
  at strength 0 has the peak frequency 2500 and the peak Q 4/5, where \<open>'off'\<close> has
  2000 and 1/2.
\<close>

theorem strength_zero_peak_terms_counterexample:
  "computeParameters fresh_graph ''speech'' 0 = Some
     \<lparr>lowShelf = \<lparr>ftype = ''lowshelf'', frequency = 200, gain = 0, Q = 1\<rparr>,
      highShelf = \<lparr>ftype = ''highshelf'', frequency = 4000, gain = 0, Q = 1\<rparr>,
      bandpass = \<lparr>ftype = ''peaking'', frequency = 2500, gain = 0, Q = 4 / 5\<rparr>,
      compressor = \<lparr>threshold = - 20, knee = 30, ratio = 4,
                    attack = 3 / 1000, release = 1 / 4\<rparr>\<rparr>
   \<and> computeParameters fresh_graph ''off'' 0 = Some
     \<lparr>lowShelf = \<lparr>ftype = ''lowshelf'', frequency = 200, gain = 0, Q = 1\<rparr>,
      highShelf = \<lparr>ftype = ''highshelf'', frequency = 4000, gain = 0, Q = 1\<rparr>,
      bandpass = \<lparr>ftype = ''peaking'', frequency = 2000, gain = 0, Q = 1 / 2\<rparr>,
      compressor = \<lparr>threshold = - 24, knee = 30, ratio = 4,
                    attack = 3 / 1000, release = 1 / 4\<rparr>\<rparr>
   \<and> (2500 :: rat) \<noteq> 2000 \<and> (4 / 5 :: rat) \<noteq> 1 / 2"
  by (simp add: computeParameters_def updateFilters_def fresh_graph_def createFilters_def)

text \<open>
  C7, amended. At strength 0 every preset has the three gains of \<open>'off'\<close> (all 0).
  The peak frequency and Q are constants of the preset, 2500 and 4/5 for \<open>'speech'\<close>,
  1500 and 1/2 for \<open>'music-reduce'\<close>, and \<open>'off'\<close> leaves them as the graph has them.
\<close>

theorem strength_zero_gains_equal_off:
  assumes "audioContext s" and "filters s = Some f"
  shows "\<exists>p q ps pm. computeParameters s preset 0 = Some p
           \<and> computeParameters s ''off'' 0 = Some q
           \<and> gain (lowShelf p) = gain (lowShelf q) \<and> gain (lowShelf q) = 0
           \<and> gain (highShelf p) = gain (highShelf q) \<and> gain (highShelf q) = 0
           \<and> gain (bandpass p) = gain (bandpass q) \<and> gain (bandpass q) = 0
           \<and> frequency (bandpass q) = frequency (bandpass f) \<and> Q (bandpass q) = Q (bandpass f)
           \<and> computeParameters s ''speech'' 0 = Some ps
           \<and> frequency (bandpass ps) = 2500 \<and> Q (bandpass ps) = 4 / 5
           \<and> computeParameters s ''music-reduce'' 0 = Some pm
           \<and> frequency (bandpass pm) = 1500 \<and> Q (bandpass pm) = 1 / 2"
proof -
  have off: "computeParameters s ''off'' 0 = Some
           \<lparr>lowShelf = (lowShelf f)\<lparr>gain := 0\<rparr>,
            highShelf = (highShelf f)\<lparr>gain := 0\<rparr>,
            bandpass = (bandpass f)\<lparr>gain := 0\<rparr>,
            compressor = (compressor f)\<lparr>threshold := - 24, ratio := 4\<rparr>\<rparr>"
    using assms by (simp add: computeParameters_default)
  consider (speech) "preset = ''speech''" | (music) "preset = ''music-reduce''"
    | (other) "preset \<noteq> ''speech''" "preset \<noteq> ''music-reduce''"
    by blast
  then show ?thesis
  proof cases
    case speech
    then show ?thesis
      using off by (simp add: computeParameters_speech [OF assms]
          computeParameters_music [OF assms])
  next
    case music
    then show ?thesis
      using off by (simp add: computeParameters_speech [OF assms]
          computeParameters_music [OF assms])
  next
    case other
    then show ?thesis
      using off by (simp add: computeParameters_speech [OF assms]
          computeParameters_music [OF assms] computeParameters_default [OF assms other])
  qed
qed

theorem strength_zero_gains_equal_off_witness:
  "\<exists>p q ps pm. computeParameters fresh_graph ''music-reduce'' 0 = Some p
           \<and> computeParameters fresh_graph ''off'' 0 = Some q
           \<and> gain (lowShelf p) = gain (lowShelf q) \<and> gain (lowShelf q) = 0
           \<and> gain (highShelf p) = gain (highShelf q) \<and> gain (highShelf q) = 0
           \<and> gain (bandpass p) = gain (bandpass q) \<and> gain (bandpass q) = 0
           \<and> frequency (bandpass q) = frequency (bandpass createFilters)
           \<and> Q (bandpass q) = Q (bandpass createFilters)
           \<and> computeParameters fresh_graph ''speech'' 0 = Some ps
           \<and> frequency (bandpass ps) = 2500 \<and> Q (bandpass ps) = 4 / 5
           \<and> computeParameters fresh_graph ''music-reduce'' 0 = Some pm
           \<and> frequency (bandpass pm) = 1500 \<and> Q (bandpass pm) = 1 / 2"
proof -
  have a: "audioContext fresh_graph" by (simp add: fresh_graph_def)
  have b: "filters fresh_graph = Some createFilters" by (simp add: fresh_graph_def)
  show ?thesis by (rule strength_zero_gains_equal_off [OF a b])
qed

text \<open>
  C8. For every preset string and strengths \<open>0 \<le> s1 \<le> s2\<close>, each effect term at
  \<open>s1\<close> is at most the one at \<open>s2\<close>: the magnitudes of the two shelf gains, the
  peak gain, the compressor ratio and the depth of the compressor threshold. (The
  branches of \<open>'speech'\<close> and \<open>'music-reduce'\<close> scale with the strength; every other
  string takes the constant branch of \<open>'off'\<close>.)
\<close>

theorem strength_monotonic:
  assumes "audioContext s" and "filters s = Some f"
    and "0 \<le> s1" and "s1 \<le> s2"
  shows "\<exists>p1 p2. computeParameters s preset s1 = Some p1
           \<and> computeParameters s preset s2 = Some p2
           \<and> \<bar>gain (lowShelf p1)\<bar> \<le> \<bar>gain (lowShelf p2)\<bar>
           \<and> \<bar>gain (highShelf p1)\<bar> \<le> \<bar>gain (highShelf p2)\<bar>
           \<and> gain (bandpass p1) \<le> gain (bandpass p2)
           \<and> ratio (compressor p1) \<le> ratio (compressor p2)
           \<and> \<bar>threshold (compressor p1)\<bar> \<le> \<bar>threshold (compressor p2)\<bar>
           \<and> threshold (compressor p2) \<le> threshold (compressor p1)"
proof -
  have s2: "0 \<le> s2" using assms(3,4) by simp
  have m: "\<And>c::rat. 0 \<le> c \<Longrightarrow> c * (of_int s1 / 100) \<le> c * (of_int s2 / 100)"
    using assms(4) by (rule scaled_mono [rotated])
  have n1: "\<And>c::rat. 0 \<le> c \<Longrightarrow> 0 \<le> c * (of_int s1 / 100)"
    using assms(3) by (rule scaled_nonneg [rotated])
  have n2: "\<And>c::rat. 0 \<le> c \<Longrightarrow> 0 \<le> c * (of_int s2 / 100)"
    using s2 by (rule scaled_nonneg [rotated])
  consider (speech) "preset = ''speech''" | (music) "preset = ''music-reduce''"
    | (other) "preset \<noteq> ''speech''" "preset \<noteq> ''music-reduce''"
    by blast
  then show ?thesis
  proof cases
    case speech
    have "\<bar>- 12 * (of_int s1 / 100 :: rat)\<bar> \<le> \<bar>- 12 * (of_int s2 / 100)\<bar>"
      using m [of 12] n1 [of 12] n2 [of 12] by simp
    moreover have "\<bar>- 8 * (of_int s1 / 100 :: rat)\<bar> \<le> \<bar>- 8 * (of_int s2 / 100)\<bar>"
      using m [of 8] n1 [of 8] n2 [of 8] by simp
    moreover have "6 * (of_int s1 / 100 :: rat) \<le> 6 * (of_int s2 / 100)"
      using m [of 6] by simp
    moreover have "4 + 4 * (of_int s1 / 100 :: rat) \<le> 4 + 4 * (of_int s2 / 100)"
      using m [of 4] by simp
    moreover have "\<bar>- 20 - 10 * (of_int s1 / 100 :: rat)\<bar> \<le> \<bar>- 20 - 10 * (of_int s2 / 100)\<bar>"
      using m [of 10] n1 [of 10] n2 [of 10] by simp
    moreover have "- 20 - 10 * (of_int s2 / 100 :: rat) \<le> - 20 - 10 * (of_int s1 / 100)"
      using m [of 10] by simp
    ultimately show ?thesis
      using speech by (simp add: computeParameters_speech [OF assms(1,2)])
  next
    case music
    have "\<bar>- 15 * (of_int s1 / 100 :: rat)\<bar> \<le> \<bar>- 15 * (of_int s2 / 100)\<bar>"
      using m [of 15] n1 [of 15] n2 [of 15] by simp
    moreover have "\<bar>- 10 * (of_int s1 / 100 :: rat)\<bar> \<le> \<bar>- 10 * (of_int s2 / 100)\<bar>"
      using m [of 10] n1 [of 10] n2 [of 10] by simp
    moreover have "3 * (of_int s1 / 100 :: rat) \<le> 3 * (of_int s2 / 100)"
      using m [of 3] by simp
    moreover have "6 + 6 * (of_int s1 / 100 :: rat) \<le> 6 + 6 * (of_int s2 / 100)"
      using m [of 6] by simp
    ultimately show ?thesis
      using music by (simp add: computeParameters_music [OF assms(1,2)])
  next
    case other
    then show ?thesis
      by (simp add: computeParameters_default [OF assms(1,2) other])
  qed
qed

theorem strength_monotonic_witness:
  "(0::int) \<le> 25 \<and> (25::int) \<le> 80
   \<and> (\<exists>p1 p2. computeParameters fresh_graph ''speech'' 25 = Some p1
           \<and> computeParameters fresh_graph ''speech'' 80 = Some p2
           \<and> \<bar>gain (lowShelf p1)\<bar> \<le> \<bar>gain (lowShelf p2)\<bar>
           \<and> \<bar>gain (highShelf p1)\<bar> \<le> \<bar>gain (highShelf p2)\<bar>
           \<and> gain (bandpass p1) \<le> gain (bandpass p2)
           \<and> ratio (compressor p1) \<le> ratio (compressor p2)
           \<and> \<bar>threshold (compressor p1)\<bar> \<le> \<bar>threshold (compressor p2)\<bar>
           \<and> threshold (compressor p2) \<le> threshold (compressor p1))"
proof -
  have a: "audioContext fresh_graph" by (simp add: fresh_graph_def)
  have b: "filters fresh_graph = Some createFilters" by (simp add: fresh_graph_def)
  have c: "(0::int) \<le> 25" by simp
  have d: "(25::int) \<le> 80" by simp
  show ?thesis using strength_monotonic [OF a b c d, of "''speech''"] by simp
qed

section \<open>Properties of the WAV encoder\<close>

lemma write_bytes_at:
  assumes "length pre = offset" and "length old = length bs"
  shows "write_bytes offset bs (pre @ old @ rest) = Inr (pre @ bs @ rest)"
  using assms by (simp add: write_bytes_def)

lemma length_wav_header: "length (wav_header c r d) = 44"
  by (simp add: wav_header_def u32le_def u16le_def)

lemma zeros44: "replicate 44 (0::nat) = [0,0,0,0, 0,0,0,0, 0,0,0,0, 0,0,0,0, 0,0,0,0, 0,0,0,0, 0,0,0,0, 0,0,0,0, 0,0,0,0, 0,0,0,0, 0,0,0,0]"
  by (simp add: numeral_eq_Suc)

lemma header_writes:
  "run_writes
           [writeString 0 ''RIFF'',
            setUint32 4 p4,
            writeString 8 ''WAVE'',
            writeString 12 ''fmt '',
            setUint32 16 p16,
            setUint16 20 p20,
            setUint16 22 p22,
            setUint32 24 p24,
            setUint32 28 p28,
            setUint16 32 p32,
            setUint16 34 p34,
            writeString 36 ''data'',
            setUint32 40 p40] (replicate 44 0 @ rest)
   = Inr ([82, 73, 70, 70] @ u32le p4 @ [87, 65, 86, 69] @ [102, 109, 116, 32]
          @ u32le p16 @ u16le p20 @ u16le p22 @ u32le p24 @ u32le p28 @ u16le p32
          @ u16le p34 @ [100, 97, 116, 97] @ u32le p40 @ rest)"
  unfolding zeros44
  by (simp add: setUint32_def setUint16_def setUint8_def write_bytes_def u32le_def u16le_def)

lemma length_sample_bytes: "length (sample_bytes x) = 2"
  by (simp add: sample_bytes_def u16le_def)

lemma length_frame_bytes: "length (frame_bytes channels i cs) = 2 * length cs"
  by (induction cs) (simp_all add: frame_bytes_def length_sample_bytes)

lemma length_frames_bytes: "length (frames_bytes channels n js) = 2 * n * length js"
  by (induction js) (simp_all add: frames_bytes_def length_frame_bytes)

lemma push_channels_eq:
  assumes "\<forall>i \<in> set js. i < length (channelData buffer)"
  shows "push_channels buffer js acc = Inr (acc @ map ((!) (channelData buffer)) js)"
  using assms by (induction js arbitrary: acc) (simp_all add: getChannelData_def)

lemma push_channels_upt:
  assumes "n \<le> length (channelData buffer)"
  shows "push_channels buffer [0..<n] [] = Inr (take n (channelData buffer))"
proof -
  have "push_channels buffer [0..<n] [] = Inr ([] @ map ((!) (channelData buffer)) [0..<n])"
    using assms by (intro push_channels_eq) simp
  also have "map ((!) (channelData buffer)) [0..<n] = take n (channelData buffer)"
    using assms by (intro nth_equalityI) simp_all
  finally show ?thesis by simp
qed

lemma write_frame_eq:
  assumes "length old = 2 * length cs"
  shows "write_frame channels i cs (length pre, pre @ old @ rest)
         = Inr (length pre + 2 * length cs, pre @ frame_bytes channels i cs @ rest)"
  using assms
proof (induction cs arbitrary: pre old)
  case Nil
  then show ?case by (simp add: frame_bytes_def)
next
  case (Cons c cs)
  then obtain a b old' where old: "old = a # b # old'" and len: "length old' = 2 * length cs"
    by (cases old; cases "tl old") auto
  let ?bs = "sample_bytes (sample_at (channels ! c) i)"
  have w: "setInt16 (length pre) (intSample (math_max_neg1 (math_min_1 (sample_at (channels ! c) i))))
             (pre @ [a, b] @ (old' @ rest)) = Inr (pre @ ?bs @ (old' @ rest))"
    unfolding setInt16_def sample_bytes_def
    by (rule write_bytes_at) (simp_all add: u16le_def)
  have ih: "write_frame channels i cs (length (pre @ ?bs), (pre @ ?bs) @ old' @ rest)
            = Inr (length (pre @ ?bs) + 2 * length cs, (pre @ ?bs) @ frame_bytes channels i cs @ rest)"
    by (rule Cons.IH [OF len])
  show ?case
    using w ih by (simp add: old frame_bytes_def length_sample_bytes)
qed

lemma write_frames_eq:
  assumes "length old = 2 * n * length js"
  shows "write_frames channels n js (length pre, pre @ old @ rest)
         = Inr (length pre + 2 * n * length js, pre @ frames_bytes channels n js @ rest)"
  using assms
proof (induction js arbitrary: pre old)
  case Nil
  then show ?case by (simp add: frames_bytes_def)
next
  case (Cons j js)
  let ?fb = "frame_bytes channels j [0..<n]"
  define o1 where "o1 = take (2 * n) old"
  define o2 where "o2 = drop (2 * n) old"
  have old: "old = o1 @ o2" by (simp add: o1_def o2_def)
  have l1: "length o1 = 2 * length [0..<n]" using Cons.prems by (simp add: o1_def)
  have l2: "length o2 = 2 * n * length js" using Cons.prems by (simp add: o2_def)
  have f: "write_frame channels j [0..<n] (length pre, pre @ o1 @ (o2 @ rest))
           = Inr (length pre + 2 * length [0..<n], pre @ ?fb @ (o2 @ rest))"
    by (rule write_frame_eq [OF l1])
  have ih: "write_frames channels n js (length (pre @ ?fb), (pre @ ?fb) @ o2 @ rest)
            = Inr (length (pre @ ?fb) + 2 * n * length js,
                   (pre @ ?fb) @ frames_bytes channels n js @ rest)"
    by (rule Cons.IH [OF l2])
  show ?case
    using f ih by (simp add: old frames_bytes_def length_frame_bytes)
qed

lemma audioBufferToWav_eq:
  assumes "numberOfChannels b \<le> length (channelData b)"
  shows "audioBufferToWav b =
           Inr (wav_header (numberOfChannels b) (sampleRate b)
                  (length_frames b * (numberOfChannels b * 2))
                @ frames_bytes (take (numberOfChannels b) (channelData b)) (numberOfChannels b)
                    [0..<length_frames b])"
proof -
  let ?c = "numberOfChannels b" and ?d = "length_frames b * (numberOfChannels b * 2)"
  let ?chs = "take ?c (channelData b)"
  let ?h = "wav_header ?c (sampleRate b) ?d"
  have v: "replicate (44 + ?d) (0::nat) = replicate 44 0 @ replicate ?d 0"
    by (simp add: replicate_add)
  have fr: "write_frames ?chs ?c [0..<length_frames b] (length ?h, ?h @ replicate ?d 0 @ [])
            = Inr (length ?h + 2 * ?c * length [0..<length_frames b],
                   ?h @ frames_bytes ?chs ?c [0..<length_frames b] @ [])"
    by (rule write_frames_eq) (simp add: mult.commute mult.left_commute)
  have v': "replicate (44 + length_frames b * (numberOfChannels b * (16 div 8))) (0::nat)
             = replicate 44 0 @ replicate ?d 0"
    by (simp add: replicate_add)
  have hdr: "run_writes
           [writeString 0 ''RIFF'',
            setUint32 4 (44 + length_frames b * (numberOfChannels b * (16 div 8)) - 8),
            writeString 8 ''WAVE'',
            writeString 12 ''fmt '',
            setUint32 16 16,
            setUint16 20 1,
            setUint16 22 (numberOfChannels b),
            setUint32 24 (sampleRate b),
            setUint32 28 (sampleRate b * (numberOfChannels b * (16 div 8))),
            setUint16 32 (numberOfChannels b * (16 div 8)),
            setUint16 34 16,
            writeString 36 ''data'',
            setUint32 40 (length_frames b * (numberOfChannels b * (16 div 8)))]
           (replicate 44 0 @ replicate ?d 0)
        = Inr (?h @ replicate ?d 0)"
    unfolding header_writes by (simp add: wav_header_def)
  show ?thesis
    unfolding audioBufferToWav_def Let_def
    apply (simp only: v' hdr)
    using fr
    apply (simp add: push_channels_upt [OF assms] length_wav_header)
    done
qed

lemma u16_value: "(v::nat) mod 256 + 256 * (v div 256 mod 256) = v mod 65536"
proof -
  have "v mod (256 * 256) = 256 * (v div 256 mod 256) + v mod 256"
    by (rule mod_mult2_eq)
  then show ?thesis by simp
qed

lemma u32_value:
  "(v::nat) mod 256 + 256 * (v div 256 mod 256) + 65536 * (v div 65536 mod 256)
     + 16777216 * (v div 16777216 mod 256) = v mod 4294967296"
proof -
  have a: "v mod (65536 * 65536) = 65536 * (v div 65536 mod 65536) + v mod 65536"
    by (rule mod_mult2_eq)
  have b: "v mod 65536 = v mod 256 + 256 * (v div 256 mod 256)"
    by (simp add: u16_value)
  have c: "v div 65536 mod 65536 = v div 65536 mod 256 + 256 * (v div 65536 div 256 mod 256)"
    by (simp add: u16_value)
  have d: "v div 65536 div 256 = v div 16777216"
    by (simp add: div_mult2_eq [symmetric])
  show ?thesis using a b c d by simp
qed

lemma header_field_22:
  "getUint16 22 (wav_header c r d @ rest) = Inr (c mod 65536)"
  by (simp add: getUint16_def wav_header_def u16le_def u32le_def u16_value)

lemma header_field_24:
  "getUint32 24 (wav_header c r d @ rest) = Inr (r mod 4294967296)"
  by (simp add: getUint32_def wav_header_def u16le_def u32le_def u32_value)

lemma header_field_34:
  "getUint16 34 (wav_header c r d @ rest) = Inr 16"
  by (simp add: getUint16_def wav_header_def u16le_def u32le_def)

lemma header_field_40:
  "getUint32 40 (wav_header c r d @ rest) = Inr (d mod 4294967296)"
  by (simp add: getUint32_def wav_header_def u16le_def u32le_def u32_value)

lemma concat_map_nth:
  assumes "\<forall>x \<in> set xs. length (f x) = k" and "i < length xs" and "j < k"
  shows "concat (map f xs) ! (i * k + j) = f (xs ! i) ! j"
  using assms
proof (induction xs arbitrary: i)
  case Nil
  then show ?case by simp
next
  case (Cons x xs)
  show ?case
  proof (cases i)
    case 0
    then show ?thesis using Cons.prems by (simp add: nth_append)
  next
    case (Suc i')
    have "concat (map f xs) ! (i' * k + j) = f (xs ! i') ! j"
      using Cons.prems Suc by (intro Cons.IH) simp_all
    then show ?thesis using Cons.prems Suc by (simp add: nth_append add.assoc)
  qed
qed

lemma frames_bytes_nth:
  assumes "i < n" and "c < m" and "j < 2"
  shows "frames_bytes chs m [0..<n] ! (2 * (i * m + c) + j)
         = sample_bytes (sample_at (chs ! c) i) ! j"
proof -
  have blk: "\<forall>x \<in> set [0..<n]. length (frame_bytes chs x [0..<m]) = 2 * m"
    by (simp add: length_frame_bytes)
  have idx: "2 * (i * m + c) + j = i * (2 * m) + (2 * c + j)"
    by (simp add: algebra_simps)
  have inner: "2 * c + j < 2 * m" using assms(2,3) by simp
  have "frames_bytes chs m [0..<n] ! (i * (2 * m) + (2 * c + j))
        = frame_bytes chs ([0..<n] ! i) [0..<m] ! (2 * c + j)"
    unfolding frames_bytes_def using blk _ inner by (rule concat_map_nth) (simp add: assms(1))
  also have "\<dots> = frame_bytes chs i [0..<m] ! (c * 2 + j)"
    using assms(1) by (simp add: mult.commute)
  also have "\<dots> = sample_bytes (sample_at (chs ! ([0..<m] ! c)) i) ! j"
    unfolding frame_bytes_def
    by (rule concat_map_nth) (simp_all add: length_sample_bytes assms)
  also have "\<dots> = sample_bytes (sample_at (chs ! c) i) ! j"
    using assms(2) by simp
  finally show ?thesis by (simp only: idx)
qed

lemma ToInt16_range: "- 32768 \<le> ToInt16 x \<and> ToInt16 x \<le> 32767"
proof (cases x)
  case (Finite v)
  have "0 \<le> js_truncate v mod 65536" and "js_truncate v mod 65536 < 65536" by simp_all
  then have "- 32768 \<le> (let m = js_truncate v mod 65536 in if 32768 \<le> m then m - 65536 else m)
      \<and> (let m = js_truncate v mod 65536 in if 32768 \<le> m then m - 65536 else m) \<le> 32767"
    unfolding Let_def by (cases "32768 \<le> js_truncate v mod 65536") simp_all
  then show ?thesis using Finite by simp
qed simp_all

lemma int16_read_back:
  assumes "- 32768 \<le> k" and "k \<le> (32767::int)"
  shows "(let u = nat (k mod 65536) in if 32768 \<le> u then int u - 65536 else int u) = k"
proof (cases "k < 0")
  case True
  have "(k + 65536) mod 65536 = k + 65536"
    using assms True by (intro mod_pos_pos_trivial) simp_all
  moreover have "(k + 65536) mod 65536 = k mod 65536"
    by simp
  ultimately have "k mod 65536 = k + 65536" by simp
  then show ?thesis using True assms by (simp add: Let_def)
next
  case False
  then have "k mod 65536 = k" using assms by simp
  then show ?thesis using False assms by (simp add: Let_def)
qed

lemma getInt16_sample_bytes:
  assumes "length pre = offset"
  shows "getInt16 offset (pre @ sample_bytes x @ rest)
         = Inr (ToInt16 (intSample (math_max_neg1 (math_min_1 x))))"
proof -
  let ?k = "ToInt16 (intSample (math_max_neg1 (math_min_1 x)))"
  let ?u = "nat (?k mod 65536)"
  have u: "?u < 65536" by simp
  have rd: "getUint16 offset (pre @ sample_bytes x @ rest) = Inr ?u"
    using assms u by (simp add: getUint16_def sample_bytes_def u16le_def nth_append u16_value)
  have "(let u = ?u in if 32768 \<le> u then int u - 65536 else int u) = ?k"
    using ToInt16_range [of "intSample (math_max_neg1 (math_min_1 x))"]
    by (intro int16_read_back) simp_all
  then show ?thesis
    by (simp add: getInt16_def rd Let_def)
qed

lemma getInt16_frames:
  assumes "i < n" and "c < m"
  shows "getInt16 (44 + 2 * (i * m + c)) (wav_header a r d @ frames_bytes chs m [0..<n])
         = Inr (ToInt16 (intSample (math_max_neg1 (math_min_1 (sample_at (chs ! c) i)))))"
proof -
  let ?fb = "frames_bytes chs m [0..<n]"
  let ?o = "2 * (i * m + c)"
  let ?x = "sample_at (chs ! c) i"
  have len: "length ?fb = 2 * m * n" by (simp add: length_frames_bytes)
  have "i * m + c < i * m + m" using assms(2) by simp
  also have "\<dots> = (i + 1) * m" by (simp add: algebra_simps)
  also have "\<dots> \<le> n * m" using assms(1) by (intro mult_le_mono1) simp
  finally have lt: "?o + 2 \<le> length ?fb" by (simp add: len algebra_simps)
  have b0: "?fb ! ?o = sample_bytes ?x ! 0"
    using frames_bytes_nth [OF assms, of 0 chs] by simp
  have b1: "?fb ! (?o + 1) = sample_bytes ?x ! 1"
    using frames_bytes_nth [OF assms, of 1 chs] by simp
  have sb: "sample_bytes ?x = [sample_bytes ?x ! 0, sample_bytes ?x ! 1]"
    by (simp add: sample_bytes_def u16le_def)
  have "getUint16 (44 + ?o) (wav_header a r d @ ?fb) = getUint16 0 (sample_bytes ?x)"
    using lt b0 b1 sb
    by (simp add: getUint16_def nth_append length_wav_header length_sample_bytes)
  then have "getInt16 (44 + ?o) (wav_header a r d @ ?fb) = getInt16 0 ([] @ sample_bytes ?x @ [])"
    by (simp add: getInt16_def)
  also have "\<dots> = Inr (ToInt16 (intSample (math_max_neg1 (math_min_1 ?x))))"
    by (rule getInt16_sample_bytes) simp
  finally show ?thesis .
qed

lemma mod_65536_signed:
  assumes "- 32768 \<le> k" and "k \<le> (32767::int)"
  shows "k mod 65536 = (if k < 0 then k + 65536 else k)"
proof (cases "k < 0")
  case True
  have "(k + 65536) mod 65536 = k + 65536"
    using assms True by (intro mod_pos_pos_trivial) simp_all
  moreover have "(k + 65536) mod 65536 = k mod 65536"
    by simp
  ultimately show ?thesis using True by simp
next
  case False
  then show ?thesis using assms by simp
qed

lemma ToInt16_no_wrap:
  assumes "- 32768 \<le> js_truncate v" and "js_truncate v \<le> 32767"
  shows "ToInt16 (Finite v) = js_truncate v"
  using assms by (simp add: mod_65536_signed [OF assms] Let_def)

lemma floor_facts:
  fixes y :: rat
  assumes "0 \<le> y" and "y \<le> of_int m"
  obtains n where "n = \<lfloor>y\<rfloor>" and "0 \<le> n" and "n \<le> m"
    and "of_int n \<le> y" and "y < of_int n + 1"
proof
  show "\<lfloor>y\<rfloor> = \<lfloor>y\<rfloor>" by simp
  show "0 \<le> \<lfloor>y\<rfloor>" using assms(1) by simp
  show "\<lfloor>y\<rfloor> \<le> m" using assms(2) by (simp add: floor_le_iff) 
  show "of_int \<lfloor>y\<rfloor> \<le> y" by simp
  show "y < of_int \<lfloor>y\<rfloor> + 1" by linarith
qed

lemma quantise_negative:
  assumes "- 1 \<le> x" and "x < (0::rat)"
  obtains n where "js_truncate (x * 32768) = - n" and "0 \<le> n" and "n \<le> 32768"
    and "of_int n \<le> - (x * 32768)" and "- (x * 32768) < of_int n + 1"
proof -
  have "0 \<le> - (x * 32768)" and "- (x * 32768) \<le> of_int 32768"
    using assms by simp_all
  then obtain n where n: "n = \<lfloor>- (x * 32768)\<rfloor>" "0 \<le> n" "n \<le> 32768"
      "of_int n \<le> - (x * 32768)" "- (x * 32768) < of_int n + 1"
    by (rule floor_facts)
  have "x * 32768 < 0" using assms(2) by simp
  then have "js_truncate (x * 32768) = - n"
    unfolding js_truncate_def n(1) by simp
  then show thesis using n(2-5) by (rule that)
qed

lemma quantise_nonnegative:
  assumes "0 \<le> x" and "x \<le> (1::rat)"
  obtains n where "js_truncate (x * 32767) = n" and "0 \<le> n" and "n \<le> 32767"
    and "of_int n \<le> x * 32767" and "x * 32767 < of_int n + 1"
proof -
  have "0 \<le> x * 32767" and "x * 32767 \<le> of_int 32767"
    using assms by simp_all
  then obtain n where n: "n = \<lfloor>x * 32767\<rfloor>" "0 \<le> n" "n \<le> 32767"
      "of_int n \<le> x * 32767" "x * 32767 < of_int n + 1"
    by (rule floor_facts)
  have "\<not> x * 32767 < 0" using assms(1) by simp
  then have "js_truncate (x * 32767) = n"
    unfolding js_truncate_def n(1) by simp
  then show thesis using n(2-5) by (rule that)
qed

lemma quantise_in_range:
  assumes "- 1 \<le> x" and "x \<le> (1::rat)"
  shows "- 32768 \<le> js_truncate (if x < 0 then x * 32768 else x * 32767)
         \<and> js_truncate (if x < 0 then x * 32768 else x * 32767) \<le> 32767"
proof (cases "x < 0")
  case True
  obtain n where "js_truncate (x * 32768) = - n" and "0 \<le> n" and "n \<le> 32768"
    using assms(1) True by (rule quantise_negative)
  then show ?thesis using True by simp
next
  case False
  then have "0 \<le> x" by simp
  then obtain n where "js_truncate (x * 32767) = n" and "0 \<le> n" and "n \<le> 32767"
    using assms(2) by (rule quantise_nonnegative)
  then show ?thesis using False by simp
qed

lemma decode_error:
  assumes "- 1 \<le> x" and "x \<le> (1::rat)"
  shows "\<bar>decodeSample (js_truncate (if x < 0 then x * 32768 else x * 32767)) - x\<bar>
         < (if x < 0 then 1 / 32768 else 1 / 32767)"
proof (cases "x < 0")
  case True
  obtain n where k: "js_truncate (x * 32768) = - n" and nn: "0 \<le> n"
    and f1: "of_int n \<le> - (x * 32768)" and f2: "- (x * 32768) < of_int n + 1"
    using assms(1) True by (rule quantise_negative)
  have d: "decodeSample (- n) = - of_int n / 32768"
  proof (cases "n = 0")
    case True
    then show ?thesis by (simp add: decodeSample_def)
  next
    case False
    then have "- n < 0" using nn by simp
    then show ?thesis by (simp add: decodeSample_def)
  qed
  have "\<bar>- of_int n / 32768 - x\<bar> < 1 / 32768"
    using f1 f2 by (simp add: abs_less_iff field_simps)
  then have "\<bar>decodeSample (- n) - x\<bar> < 1 / 32768"
    unfolding d .
  then show ?thesis using True k by simp
next
  case False
  then have "0 \<le> x" by simp
  then obtain n where k: "js_truncate (x * 32767) = n" and nn: "0 \<le> n"
    and f1: "of_int n \<le> x * 32767" and f2: "x * 32767 < of_int n + 1"
    using assms(2) by (rule quantise_nonnegative)
  have d: "decodeSample n = of_int n / 32767"
    using nn by (simp add: decodeSample_def)
  have "\<bar>of_int n / 32767 - x\<bar> < 1 / 32767"
    using f1 f2 by (simp add: abs_less_iff field_simps)
  then have "\<bar>decodeSample n - x\<bar> < 1 / 32767"
    unfolding d .
  then show ?thesis using False k by simp
qed

text \<open>
  C1, as stated, fails on the code: \<open>setUint32\<close> keeps the low 32 bits. For a
  2-channel buffer of \<open>2^30\<close> frames the data length is \<open>2^32\<close> bytes and the
  field at offset 40 reads 0.
\<close>

theorem wav_data_length_counterexample:
  "and_then (audioBufferToWav long_buffer) (getUint32 40) = Inr 0
   \<and> length_frames long_buffer * numberOfChannels long_buffer * 2 = 4294967296"
proof -
  have ch: "numberOfChannels long_buffer \<le> length (channelData long_buffer)"
    by (simp add: long_buffer_def)
  have d: "length_frames long_buffer * (numberOfChannels long_buffer * 2) = 4294967296"
    by (simp add: long_buffer_def)
  have "and_then (audioBufferToWav long_buffer) (getUint32 40)
        = Inr (length_frames long_buffer * (numberOfChannels long_buffer * 2) mod 4294967296)"
    unfolding audioBufferToWav_eq [OF ch] and_then_def sum.case header_field_40 ..
  then show ?thesis
    unfolding d by (simp add: long_buffer_def)
qed

text \<open>
  C1, amended. For every well-formed buffer the encoder returns
  \<open>44 + numFrames * numChannels * 2\<close> bytes; the header carries, little-endian, the
  channel count modulo \<open>2^16\<close> at offset 22, the sample rate modulo \<open>2^32\<close> at
  offset 24, the bit depth 16 at offset 34 and the data length modulo \<open>2^32\<close> at
  offset 40: the values themselves whenever they fit their fields.
\<close>

theorem wav_layout:
  assumes "well_formed b"
  shows "\<exists>bytes. audioBufferToWav b = Inr bytes
           \<and> length bytes = 44 + length_frames b * numberOfChannels b * 2
           \<and> getUint16 22 bytes = Inr (numberOfChannels b mod 65536)
           \<and> getUint32 24 bytes = Inr (sampleRate b mod 4294967296)
           \<and> getUint16 34 bytes = Inr 16
           \<and> getUint32 40 bytes = Inr (length_frames b * numberOfChannels b * 2 mod 4294967296)
           \<and> (numberOfChannels b < 65536 \<longrightarrow> getUint16 22 bytes = Inr (numberOfChannels b))
           \<and> (sampleRate b < 4294967296 \<longrightarrow> getUint32 24 bytes = Inr (sampleRate b))
           \<and> (length_frames b * numberOfChannels b * 2 < 4294967296 \<longrightarrow>
                getUint32 40 bytes = Inr (length_frames b * numberOfChannels b * 2))"
proof -
  have ch: "numberOfChannels b \<le> length (channelData b)"
    using assms by (simp add: well_formed_def)
  have d: "length_frames b * (numberOfChannels b * 2) = length_frames b * numberOfChannels b * 2"
    by simp
  show ?thesis
    unfolding audioBufferToWav_eq [OF ch] d
    by (simp add: header_field_22 header_field_24 header_field_34 header_field_40
        length_wav_header length_frames_bytes mult.commute mult.left_commute)
qed

theorem wav_layout_witness:
  "well_formed example_buffer
   \<and> (\<exists>bytes. audioBufferToWav example_buffer = Inr bytes
         \<and> length bytes = 4044
         \<and> getUint16 22 bytes = Inr 2
         \<and> getUint32 24 bytes = Inr 44100
         \<and> getUint16 34 bytes = Inr 16
         \<and> getUint32 40 bytes = Inr 4000)"
proof -
  have wf: "well_formed example_buffer"
    by (simp add: well_formed_def example_buffer_def)
  have sel: "numberOfChannels example_buffer = 2" "sampleRate example_buffer = 44100"
    "length_frames example_buffer = 1000"
    by (simp_all add: example_buffer_def)
  from wav_layout [OF wf] obtain bytes where
    "audioBufferToWav example_buffer = Inr bytes"
    "length bytes = 44 + length_frames example_buffer * numberOfChannels example_buffer * 2"
    "getUint16 22 bytes = Inr (numberOfChannels example_buffer mod 65536)"
    "getUint32 24 bytes = Inr (sampleRate example_buffer mod 4294967296)"
    "getUint16 34 bytes = Inr 16"
    "getUint32 40 bytes
       = Inr (length_frames example_buffer * numberOfChannels example_buffer * 2 mod 4294967296)"
    by blast
  then have "audioBufferToWav example_buffer = Inr bytes
         \<and> length bytes = 4044
         \<and> getUint16 22 bytes = Inr 2
         \<and> getUint32 24 bytes = Inr 44100
         \<and> getUint16 34 bytes = Inr 16
         \<and> getUint32 40 bytes = Inr 4000"
    unfolding sel by simp
  then show ?thesis using wf by blast
qed

text \<open>
  C5. For a sample \<open>x\<close> in \<open>[-1, 1]\<close> at frame \<open>i\<close> of channel \<open>c\<close>, the scaled
  value lies in the signed 16-bit range, the two bytes at
  \<open>44 + 2 * (i * numChannels + c)\<close> read back as its truncation \<open>k\<close>, and decoding
  \<open>k\<close> recovers \<open>x\<close> within one quantization step.
\<close>

theorem wav_round_trip:
  assumes "well_formed b" and "i < length_frames b" and "c < numberOfChannels b"
    and "channelData b ! c ! i = Finite x" and "- 1 \<le> x" and "x \<le> 1"
  shows "\<exists>bytes k. audioBufferToWav b = Inr bytes
           \<and> getInt16 (44 + 2 * (i * numberOfChannels b + c)) bytes = Inr k
           \<and> intSample (math_max_neg1 (math_min_1 (Finite x)))
               = Finite (if x < 0 then x * 32768 else x * 32767)
           \<and> - 32768 \<le> (if x < 0 then x * 32768 else x * 32767)
           \<and> (if x < 0 then x * 32768 else x * 32767) \<le> 32767
           \<and> k = js_truncate (if x < 0 then x * 32768 else x * 32767)
           \<and> - 32768 \<le> k \<and> k \<le> 32767
           \<and> \<bar>decodeSample k - x\<bar> < (if x < 0 then 1 / 32768 else 1 / 32767)"
proof -
  let ?v = "if x < 0 then x * 32768 else x * 32767"
  let ?m = "numberOfChannels b"
  have ch: "?m \<le> length (channelData b)" and len: "length (channelData b) = ?m"
    using assms(1) by (simp_all add: well_formed_def)
  have "channelData b ! c \<in> set (channelData b)"
    using assms(3) len by simp
  then have lc: "length (channelData b ! c) = length_frames b"
    using assms(1) by (simp add: well_formed_def)
  have sa: "sample_at (take ?m (channelData b) ! c) i = Finite x"
    using assms(2,3,4) lc by (simp add: sample_at_def)
  have cl: "math_max_neg1 (math_min_1 (Finite x)) = Finite x"
    using assms(5,6) by simp
  have isv: "intSample (math_max_neg1 (math_min_1 (Finite x))) = Finite ?v"
    unfolding cl by simp
  have rng: "- 32768 \<le> js_truncate ?v \<and> js_truncate ?v \<le> 32767"
    using assms(5,6) by (rule quantise_in_range)
  have ti: "ToInt16 (Finite ?v) = js_truncate ?v"
    using rng by (intro ToInt16_no_wrap) simp_all
  have rd: "getInt16 (44 + 2 * (i * ?m + c))
              (wav_header ?m (sampleRate b) (length_frames b * (?m * 2))
               @ frames_bytes (take ?m (channelData b)) ?m [0..<length_frames b])
            = Inr (js_truncate ?v)"
    unfolding getInt16_frames [OF assms(2,3)] sa isv ti ..
  have vb: "- 32768 \<le> ?v \<and> ?v \<le> 32767"
    using assms(5,6) by (cases "x < 0") simp_all
  have err: "\<bar>decodeSample (js_truncate ?v) - x\<bar> < (if x < 0 then 1 / 32768 else 1 / 32767)"
    using assms(5,6) by (rule decode_error)
  show ?thesis
    unfolding audioBufferToWav_eq [OF ch]
    using rd isv vb rng err by blast
qed

theorem wav_round_trip_witness:
  "well_formed small_buffer \<and> (1::nat) < length_frames small_buffer
   \<and> (1::nat) < numberOfChannels small_buffer
   \<and> channelData small_buffer ! 1 ! 1 = Finite (- 1 / 3)
   \<and> (\<exists>bytes. audioBufferToWav small_buffer = Inr bytes
         \<and> getInt16 50 bytes = Inr (- 10922)
         \<and> \<bar>decodeSample (- 10922) - (- 1 / 3)\<bar> < 1 / 32768)"
proof -
  have wf: "well_formed small_buffer"
    by (simp add: well_formed_def small_buffer_def)
  have i: "1 < length_frames small_buffer" and c: "1 < numberOfChannels small_buffer"
    and x: "channelData small_buffer ! 1 ! 1 = Finite (- 1 / 3)"
    by (simp_all add: small_buffer_def)
  have m: "numberOfChannels small_buffer = 2" by (simp add: small_buffer_def)
  have "\<lfloor>32768 / 3 :: rat\<rfloor> = 10922"
    by (rule floor_unique) simp_all
  then have k: "js_truncate (- 1 / 3 * 32768) = - 10922"
    by (simp add: js_truncate_def)
  from wav_round_trip [OF wf i c x] obtain bytes k where
    "audioBufferToWav small_buffer = Inr bytes"
    "getInt16 (44 + 2 * (1 * numberOfChannels small_buffer + 1)) bytes = Inr k"
    "k = js_truncate (if (- 1 / 3 :: rat) < 0 then - 1 / 3 * 32768 else - 1 / 3 * 32767)"
    "\<bar>decodeSample k - (- 1 / 3)\<bar> < (if (- 1 / 3 :: rat) < 0 then 1 / 32768 else 1 / 32767)"
    by force
  then have "audioBufferToWav small_buffer = Inr bytes
         \<and> getInt16 50 bytes = Inr (- 10922)
         \<and> \<bar>decodeSample (- 10922) - (- 1 / 3)\<bar> < 1 / 32768"
    using k by (simp add: m)
  then show ?thesis using wf i c x by blast
qed

section \<open>Properties of the export jobs\<close>

lemma speech_fx_flags: "isProcessed speech_fx \<and> currentPreset speech_fx = ''speech'' \<and> audioContext speech_fx
  \<and> filters speech_fx \<noteq> None"
  by (simp add: speech_fx_def setPreset_def updateFilters_def updateBypass_def fresh_graph_def Let_def)

lemma toggled_fx_flags: "\<not> isProcessed toggled_fx \<and> currentPreset toggled_fx = ''speech''"
  using speech_fx_flags
  by (simp add: toggled_fx_def abToggleClick_def updateBypass_def Let_def split: sum.splits)

text \<open>
  The guard both export entry points begin with: while \<open>isExporting\<close> is set, the
  call shows the warning "Export already in progress" and changes nothing else.
\<close>

lemma busy_flag_guard:
  assumes "isExporting w"
  shows "downloadProcessedAudio e w
           = (Busy, w\<lparr>toasts := toasts w @ [(''Export already in progress'', ''warning'')]\<rparr>)
         \<and> downloadProcessedVideo e w
           = (Busy, w\<lparr>toasts := toasts w @ [(''Export already in progress'', ''warning'')]\<rparr>)"
  using assms by (simp add: downloadProcessedAudio_def downloadProcessedVideo_def showToast_def)

lemma getProcessedStream_speech: "getProcessedStream speech_fx = Inr True"
  using speech_fx_flags by (auto simp add: getProcessedStream_def)

lemma isAudioProcessed_speech: "isAudioProcessed speech_fx"
  using speech_fx_flags by (simp add: isAudioProcessed_def)

lemma getCurrentPreset_speech: "getCurrentPreset speech_fx = ''speech''"
  using speech_fx_flags by (simp add: getCurrentPreset_def)

lemma capture_started:
  "downloadProcessedAudio fair_env file_world =
     (Capturing,
      file_world\<lparr>isExporting := True, modalTitle := ''Exporting Audio'', modalHidden := False,
        exportPercent := Finite 0, exportStatus := ''Recording processed audio...'',
        recorders := [Recording],
        video := Some \<lparr>currentTime = 0, duration = 60, paused = False\<rparr>,
        intervals := [0], timerCount := Suc 0,
        endedListeners := [\<lparr>startTime = 30, mediaRecorder = 0, progressInterval = 0,
                             mimeType = ''audio/webm;codecs=opus''\<rparr>],
        abortController := Some \<lparr>startTime = 30, mediaRecorder = 0, progressInterval = 0,
                             mimeType = ''audio/webm;codecs=opus''\<rparr>\<rparr>)"
  by (simp add: downloadProcessedAudio_def file_world_def fair_env_def
      getProcessedStream_speech isAudioProcessed_speech Let_def
      showExportModal_def updateExportStatus_def updateExportProgress_def)

lemma capturing_world_eq:
  "capturing_world =
      file_world\<lparr>isExporting := True, modalTitle := ''Exporting Audio'', modalHidden := False,
        exportPercent := Finite 0, exportStatus := ''Recording processed audio...'',
        recorders := [Recording],
        video := Some \<lparr>currentTime = 0, duration = 60, paused = False\<rparr>,
        intervals := [0], timerCount := Suc 0,
        endedListeners := [\<lparr>startTime = 30, mediaRecorder = 0, progressInterval = 0,
                             mimeType = ''audio/webm;codecs=opus''\<rparr>],
        abortController := Some \<lparr>startTime = 30, mediaRecorder = 0, progressInterval = 0,
                             mimeType = ''audio/webm;codecs=opus''\<rparr>\<rparr>"
  by (simp add: capturing_world_def capture_started)

lemma cancelled_world_eq:
  "cancelExport capturing_world =
     (None,
      file_world\<lparr>modalTitle := ''Exporting Audio'', exportStatus := ''Recording processed audio...'',
        recorders := [Inactive],
        video := Some \<lparr>currentTime = 30, duration = 60, paused = True\<rparr>,
        timerCount := Suc 0,
        abortController := Some first_capture,
        toasts := [(''Export cancelled'', ''warning'')]\<rparr>)"
  by (simp add: capturing_world_eq cancelExport_def abort_def stop_capture_def Let_def
      first_capture_def file_world_def showToast_def hideExportModal_def)

lemma second_capture_world_eq:
  "downloadProcessedAudio fair_env cancelled_world =
     (Capturing,
      file_world\<lparr>isExporting := True, modalTitle := ''Exporting Audio'', modalHidden := False,
        exportStatus := ''Recording processed audio...'',
        recorders := [Inactive, Recording],
        video := Some \<lparr>currentTime = 0, duration = 60, paused = False\<rparr>,
        intervals := [Suc 0], timerCount := Suc (Suc 0),
        endedListeners := [\<lparr>startTime = 30, mediaRecorder = Suc 0, progressInterval = Suc 0,
                             mimeType = ''audio/webm;codecs=opus''\<rparr>],
        abortController := Some \<lparr>startTime = 30, mediaRecorder = Suc 0, progressInterval = Suc 0,
                             mimeType = ''audio/webm;codecs=opus''\<rparr>,
        toasts := [(''Export cancelled'', ''warning'')]\<rparr>)"
  unfolding cancelled_world_def cancelled_world_eq snd_conv
  by (simp add: downloadProcessedAudio_def first_capture_def
      file_world_def fair_env_def getProcessedStream_speech isAudioProcessed_speech Let_def
      showExportModal_def updateExportStatus_def updateExportProgress_def)

lemma overlapped_world_eq:
  "overlapped_world =
      file_world\<lparr>modalTitle := ''Exporting Audio'',
        exportPercent := Finite 80, exportStatus := ''Creating audio file...'',
        recorders := [Inactive, Recording],
        video := Some \<lparr>currentTime = 0, duration = 60, paused = False\<rparr>,
        intervals := [Suc 0], timerCount := Suc (Suc 0),
        endedListeners := [\<lparr>startTime = 30, mediaRecorder = Suc 0, progressInterval = Suc 0,
                             mimeType = ''audio/webm;codecs=opus''\<rparr>],
        abortController := Some \<lparr>startTime = 30, mediaRecorder = Suc 0, progressInterval = Suc 0,
                             mimeType = ''audio/webm;codecs=opus''\<rparr>,
        toasts := [(''Export cancelled'', ''warning''),
                   (''Audio exported as WebM (WAV conversion unavailable)'', ''success'')],
        downloads := [(''talk_speech.webm'', RecordedBlob ''audio/webm;codecs=opus'')]\<rparr>"
  unfolding overlapped_world_def second_capture_world_def second_capture_world_eq snd_conv
  by (simp add:
      onstop_def convertToWav_def first_capture_def getExportFilename_def strip_extension_def
      getCurrentPreset_speech file_world_def fair_env_def Let_def
      showToast_def hideExportModal_def downloadBlob_def updateExportStatus_def
      updateExportProgress_def)

text \<open>
  C2 does not hold of the code: \<open>isExporting\<close> is cleared while a capture still
  runs. An audio export is started and cancelled, a second one is started, and then
  the first recorder's \<open>onstop\<close> handler runs: it delivers the first recording and
  clears the flag. The second capture is still recording, with its timer and abort
  handle in place, and both entry points accept a further export: a third recorder
  records beside the second, and a video export runs to delivery.
\<close>

theorem export_admitted_while_capture_runs:
  "fst (downloadProcessedAudio fair_env file_world) = Capturing
   \<and> fst (cancelExport capturing_world) = None
   \<and> fst (downloadProcessedAudio fair_env cancelled_world) = Capturing
   \<and> recorders overlapped_world = [Inactive, Recording]
   \<and> abortController overlapped_world
       = Some \<lparr>startTime = 30, mediaRecorder = 1, progressInterval = 1,
               mimeType = ''audio/webm;codecs=opus''\<rparr>
   \<and> intervals overlapped_world = [1]
   \<and> isExporting overlapped_world = False
   \<and> fst (downloadProcessedAudio fair_env overlapped_world) = Capturing
   \<and> recorders (snd (downloadProcessedAudio fair_env overlapped_world))
       = [Inactive, Recording, Recording]
   \<and> fst (downloadProcessedVideo fair_env overlapped_world) = Delivered"
proof -
  have a: "fst (downloadProcessedAudio fair_env overlapped_world) = Capturing
      \<and> recorders (snd (downloadProcessedAudio fair_env overlapped_world))
          = [Inactive, Recording, Recording]"
    unfolding overlapped_world_eq
    by (simp add: downloadProcessedAudio_def file_world_def fair_env_def
        getProcessedStream_speech isAudioProcessed_speech Let_def
        showExportModal_def updateExportStatus_def updateExportProgress_def)
  have v: "fst (downloadProcessedVideo fair_env overlapped_world) = Delivered"
    unfolding overlapped_world_eq
    by (simp add: downloadProcessedVideo_def video_try_def loadFFmpeg_def apply_load_def
        writeFile_def exec_def readFile_def deleteFile_def engine_op_def
        getCurrentPreset_speech file_world_def fair_env_def Let_def
        showExportModal_def updateExportStatus_def updateExportProgress_def showToast_def
        downloadBlob_def)
  have s: "recorders overlapped_world = [Inactive, Recording]
      \<and> abortController overlapped_world
          = Some \<lparr>startTime = 30, mediaRecorder = 1, progressInterval = 1,
                  mimeType = ''audio/webm;codecs=opus''\<rparr>
      \<and> intervals overlapped_world = [1]
      \<and> isExporting overlapped_world = False"
    unfolding overlapped_world_eq by (simp add: file_world_def)
  show ?thesis
    using a v s by (simp add: capture_started cancelled_world_eq second_capture_world_eq)
qed

text \<open>
  C10. With no export in progress and the audio instance and video element present,
  an audio export is turned away at the preset gate exactly when the preset is
  \<open>'off'\<close> or the A/B toggle is on the original; otherwise it goes on to the capture
  (or fails inside the \<open>try\<close> block). A chosen preset with the toggle switched back is
  rejected with "Please select an audio preset first" and the state is otherwise
  unchanged.
\<close>

theorem audio_admission_gate:
  assumes "\<not> isExporting w" and "audioFx w = Some fx" and "video w = Some v"
  shows "(fst (downloadProcessedAudio e w) = NoPreset
            \<longleftrightarrow> \<not> (currentPreset fx \<noteq> ''off'' \<and> isProcessed fx))
         \<and> (currentPreset fx \<noteq> ''off'' \<and> isProcessed fx \<longrightarrow>
              fst (downloadProcessedAudio e w) = Capturing
              \<or> (\<exists>err. fst (downloadProcessedAudio e w) = Failed err))
         \<and> (\<not> (currentPreset fx \<noteq> ''off'' \<and> isProcessed fx) \<longrightarrow>
              downloadProcessedAudio e w
                = (NoPreset,
                   w\<lparr>toasts := toasts w @ [(''Please select an audio preset first'', ''warning'')]\<rparr>))"
proof (cases "currentPreset fx \<noteq> ''off'' \<and> isProcessed fx")
  case True
  then have p: "isAudioProcessed fx" by (simp add: isAudioProcessed_def)
  have "fst (downloadProcessedAudio e w) = Capturing
        \<or> (\<exists>err. fst (downloadProcessedAudio e w) = Failed err)"
    using assms p
    by (simp add: downloadProcessedAudio_def audio_catch_def Let_def
        split: sum.splits bool.splits option.splits)
  then show ?thesis using True by auto
next
  case False
  then have p: "\<not> isAudioProcessed fx" by (auto simp add: isAudioProcessed_def)
  have "downloadProcessedAudio e w
          = (NoPreset,
             w\<lparr>toasts := toasts w @ [(''Please select an audio preset first'', ''warning'')]\<rparr>)"
    using assms p by (simp add: downloadProcessedAudio_def showToast_def)
  then show ?thesis using False by auto
qed

theorem audio_admission_gate_witness:
  "\<not> isExporting toggled_world \<and> audioFx toggled_world = Some toggled_fx
   \<and> video toggled_world = Some \<lparr>currentTime = 30, duration = 60, paused = False\<rparr>
   \<and> currentPreset toggled_fx \<noteq> ''off'' \<and> \<not> isProcessed toggled_fx
   \<and> downloadProcessedAudio fair_env toggled_world
       = (NoPreset,
          toggled_world\<lparr>toasts := [(''Please select an audio preset first'', ''warning'')]\<rparr>)"
proof -
  have a: "\<not> isExporting toggled_world"
    and b: "audioFx toggled_world = Some toggled_fx"
    and c: "video toggled_world = Some \<lparr>currentTime = 30, duration = 60, paused = False\<rparr>"
    and t: "toasts toggled_world = []"
    by (simp_all add: toggled_world_def file_world_def)
  have f: "currentPreset toggled_fx \<noteq> ''off''" "\<not> isProcessed toggled_fx"
    using toggled_fx_flags by simp_all
  show ?thesis
    using audio_admission_gate [OF a b c, of fair_env] a b c f by (simp add: t)
qed

text \<open>
  C4, as stated, fails on the code: only the position is saved. A video that was
  playing at 0:30 when the export started is paused at 0:30 after the cancellation.
\<close>

theorem capture_paused_state_counterexample:
  "map_option paused (video file_world) = Some False
   \<and> map_option currentTime (video file_world) = Some 30
   \<and> fst (downloadProcessedAudio fair_env file_world) = Capturing
   \<and> fst (cancelExport (snd (downloadProcessedAudio fair_env file_world))) = None
   \<and> map_option paused (video (snd (cancelExport (snd (downloadProcessedAudio fair_env file_world)))))
       = Some True
   \<and> map_option currentTime
       (video (snd (cancelExport (snd (downloadProcessedAudio fair_env file_world)))))
       = Some 30"
  unfolding capture_started
  by (simp add: cancelExport_def abort_def stop_capture_def Let_def file_world_def
      showToast_def hideExportModal_def)

lemma stop_capture_restores:
  assumes "mediaRecorder c < length (recorders w)"
    and "recorders w ! mediaRecorder c = Recording" and "video w = Some m"
  shows "stop_capture c w =
           (None,
            w\<lparr>intervals := removeAll (progressInterval c) (intervals w),
              recorders := (recorders w)[mediaRecorder c := Inactive],
              endedListeners := removeAll c (endedListeners w),
              video := Some (m\<lparr>currentTime := startTime c, paused := True\<rparr>)\<rparr>)"
  using assms by (simp add: stop_capture_def Let_def)

lemma capture_started_shape:
  assumes "downloadProcessedAudio e w = (Capturing, w1)" and "video w = Some m0"
  shows "\<exists>c. abortController w1 = Some c \<and> c \<in> set (endedListeners w1)
           \<and> startTime c = currentTime m0
           \<and> mediaRecorder c < length (recorders w1)
           \<and> recorders w1 ! mediaRecorder c = Recording
           \<and> video w1 = Some (m0\<lparr>currentTime := 0, paused := False\<rparr>)"
  using assms
  by (auto simp add: downloadProcessedAudio_def audio_catch_def Let_def showToast_def
      updateExportStatus_def showExportModal_def updateExportProgress_def nth_append
      split: if_splits sum.splits bool.splits option.splits)

text \<open>
  C4, amended. For a capture started from position \<open>t0\<close>, the end of the media
  (\<open>onEnded\<close>) and the cancellation through the abort handle both run to the end
  while the recorder is recording and leave the element at \<open>t0\<close> and paused, wherever
  playback had got to; the paused flag is thus the original one exactly when the media
  was paused at the start.
\<close>

theorem capture_restores_position:
  assumes "downloadProcessedAudio e w = (Capturing, w1)" and "video w = Some m0"
    and "video w2 = Some m" and "abortController w2 = abortController w1"
    and "endedListeners w2 = endedListeners w1" and "recorders w2 = recorders w1"
  shows "\<exists>c. abortController w1 = Some c
           \<and> fst (onEnded c w2) = None
           \<and> video (snd (onEnded c w2)) = Some (m\<lparr>currentTime := currentTime m0, paused := True\<rparr>)
           \<and> fst (cancelExport w2) = None
           \<and> video (snd (cancelExport w2))
               = Some (m\<lparr>currentTime := currentTime m0, paused := True\<rparr>)"
proof -
  obtain c where c: "abortController w1 = Some c" "c \<in> set (endedListeners w1)"
      "startTime c = currentTime m0" "mediaRecorder c < length (recorders w1)"
      "recorders w1 ! mediaRecorder c = Recording"
    using capture_started_shape [OF assms(1,2)] by blast
  have r: "mediaRecorder c < length (recorders w2)" "recorders w2 ! mediaRecorder c = Recording"
    using c(4,5) assms(6) by simp_all
  note st = stop_capture_restores [OF r assms(3)]
  have e1: "onEnded c w2 = stop_capture c w2"
    using c(2) assms(5) by (simp add: onEnded_def)
  have "fst (onEnded c w2) = None
        \<and> video (snd (onEnded c w2)) = Some (m\<lparr>currentTime := currentTime m0, paused := True\<rparr>)"
    unfolding e1 st using c(3) by simp
  moreover have "fst (cancelExport w2) = None
        \<and> video (snd (cancelExport w2)) = Some (m\<lparr>currentTime := currentTime m0, paused := True\<rparr>)"
    using c(1,3) assms(4) st
    by (simp add: cancelExport_def abort_def showToast_def hideExportModal_def)
  ultimately show ?thesis using c(1) by blast
qed

theorem capture_restores_position_witness:
  "downloadProcessedAudio fair_env file_world = (Capturing, capturing_world)
   \<and> video file_world = Some \<lparr>currentTime = 30, duration = 60, paused = False\<rparr>
   \<and> video (capturing_world\<lparr>video := Some \<lparr>currentTime = 12, duration = 60, paused = False\<rparr>\<rparr>)
       = Some \<lparr>currentTime = 12, duration = 60, paused = False\<rparr>
   \<and> (\<exists>c. abortController capturing_world = Some c
         \<and> video (snd (onEnded c
              (capturing_world\<lparr>video := Some \<lparr>currentTime = 12, duration = 60, paused = False\<rparr>\<rparr>)))
             = Some \<lparr>currentTime = 30, duration = 60, paused = True\<rparr>
         \<and> video (snd (cancelExport
              (capturing_world\<lparr>video := Some \<lparr>currentTime = 12, duration = 60, paused = False\<rparr>\<rparr>)))
             = Some \<lparr>currentTime = 30, duration = 60, paused = True\<rparr>)"
proof -
  let ?w2 = "capturing_world\<lparr>video := Some \<lparr>currentTime = 12, duration = 60, paused = False\<rparr>\<rparr>"
  have a: "downloadProcessedAudio fair_env file_world = (Capturing, capturing_world)"
    by (simp add: capturing_world_def capture_started)
  have b: "video file_world = Some \<lparr>currentTime = 30, duration = 60, paused = False\<rparr>"
    by (simp add: file_world_def)
  have c: "video ?w2 = Some \<lparr>currentTime = 12, duration = 60, paused = False\<rparr>"
    and d: "abortController ?w2 = abortController capturing_world"
    and f: "endedListeners ?w2 = endedListeners capturing_world"
    and g: "recorders ?w2 = recorders capturing_world"
    by simp_all
  show ?thesis
    using capture_restores_position [OF a b c d f g] a b by simp blast
qed

lemma url_error_message:
  "\<not> str_includes (message url_error) ''SharedArrayBuffer''"
  "str_includes (message url_error) ''URL-based''"
  unfolding url_error_def by code_simp+

lemma video_catch_url_error:
  "video_catch url_error w =
     w\<lparr>toasts := toasts w @ [(message url_error, ''error'')], modalHidden := True,
       isExporting := False\<rparr>"
  by (simp add: video_catch_def url_error_message showToast_def hideExportModal_def)

text \<open>
  C3, as stated, fails on the code: \<open>loadFFmpeg\<close> is awaited before the source is
  checked. On a URL-sourced video with no engine yet, the engine is loaded and then
  the export fails; when that load fails, its failure is what is reported.
\<close>

theorem url_export_loads_engine_counterexample:
  "videoFile url_world = None \<and> ffmpeg url_world = None
   \<and> fst (downloadProcessedVideo fair_env url_world) = Failed url_error
   \<and> engineCalls (snd (downloadProcessedVideo fair_env url_world)) = [LoadEngine]
   \<and> ffmpeg (snd (downloadProcessedVideo fair_env url_world))
       = Some \<lparr>loaded = True, storage = []\<rparr>
   \<and> toasts (snd (downloadProcessedVideo
                    (fair_env\<lparr>loadOutcome := ImportFails ''network''\<rparr>) url_world))
       = [(''Video export failed'', ''error'')]"
proof -
  have "\<not> str_includes ''Failed to load ffmpeg.wasm: network'' ''SharedArrayBuffer''"
    and "\<not> str_includes ''Failed to load ffmpeg.wasm: network'' ''URL-based''"
    by code_simp+
  then show ?thesis
    by (simp add: downloadProcessedVideo_def video_try_def loadFFmpeg_def apply_load_def
        video_catch_url_error url_error_def [symmetric] video_catch_def
        url_world_def file_world_def fair_env_def Let_def
        showExportModal_def updateExportStatus_def updateExportProgress_def showToast_def
        hideExportModal_def)
qed

lemma loadFFmpeg_frame:
  "loadFFmpeg e (w\<lparr>isExporting := a, modalTitle := b, modalHidden := c, exportPercent := d,
                   exportStatus := s\<rparr>)
   = (case loadFFmpeg e w of
        Returned w' \<Rightarrow> Returned (w'\<lparr>isExporting := a, modalTitle := b, modalHidden := c,
                                      exportPercent := d, exportStatus := s\<rparr>)
      | Thrown err w' \<Rightarrow> Thrown err (w'\<lparr>isExporting := a, modalTitle := b, modalHidden := c,
                                          exportPercent := d, exportStatus := s\<rparr>)
      | Suspended w' \<Rightarrow> Suspended (w'\<lparr>isExporting := a, modalTitle := b, modalHidden := c,
                                        exportPercent := d, exportStatus := s\<rparr>))"
  by (simp add: loadFFmpeg_def apply_load_def Let_def split: option.splits load_outcome.splits)

lemma loadFFmpeg_effect:
  "loadFFmpeg e w = Returned w' \<or> loadFFmpeg e w = Thrown err w' \<or> loadFFmpeg e w = Suspended w'
   \<Longrightarrow> engineCalls w' = engineCalls w @ (if ffmpeg w = None \<and> \<not> isLoading w then [LoadEngine] else [])
       \<and> videoFile w' = videoFile w \<and> toasts w' = toasts w
       \<and> (ffmpeg w \<noteq> None \<longrightarrow> ffmpeg w' = ffmpeg w)"
  by (auto simp add: loadFFmpeg_def apply_load_def Let_def
      split: if_splits option.splits load_outcome.splits)

text \<open>
  C3, amended. For a video export admitted on a URL-sourced video: the only engine
  call is the load, made when no instance exists and none is being loaded; once
  \<open>loadFFmpeg\<close> returns, the export fails with the source error, shown as a toast,
  and the job is idle again; a load that throws is the failure reported instead; an
  existing instance is left as it is. Nothing is written to the working storage or
  transcoded.
\<close>

theorem url_export_fails_after_load:
  assumes "\<not> isExporting w" and "videoFile w = None"
  shows "engineCalls (snd (downloadProcessedVideo e w))
           = engineCalls w @ (if ffmpeg w = None \<and> \<not> isLoading w then [LoadEngine] else [])
         \<and> ((\<exists>w'. loadFFmpeg e w = Returned w') \<longrightarrow>
               fst (downloadProcessedVideo e w) = Failed url_error
               \<and> toasts (snd (downloadProcessedVideo e w))
                   = toasts w @ [(message url_error, ''error'')]
               \<and> \<not> isExporting (snd (downloadProcessedVideo e w))
               \<and> modalHidden (snd (downloadProcessedVideo e w)))
         \<and> (\<forall>err w'. loadFFmpeg e w = Thrown err w' \<longrightarrow>
               fst (downloadProcessedVideo e w) = Failed err)
         \<and> (ffmpeg w \<noteq> None \<longrightarrow> ffmpeg (snd (downloadProcessedVideo e w)) = ffmpeg w)"
proof (cases "loadFFmpeg e w")
  case (Returned w')
  note eff = loadFFmpeg_effect [OF disjI1, OF Returned]
  show ?thesis
    using assms Returned eff
    by (simp add: downloadProcessedVideo_def video_try_def showExportModal_def
        updateExportStatus_def updateExportProgress_def loadFFmpeg_frame
        video_catch_url_error url_error_def [symmetric])
next
  case (Thrown err w')
  note eff = loadFFmpeg_effect [OF disjI2, OF disjI1, OF Thrown]
  show ?thesis
    using assms Thrown eff
    by (simp add: downloadProcessedVideo_def video_try_def showExportModal_def
        updateExportStatus_def updateExportProgress_def loadFFmpeg_frame
        video_catch_def showToast_def hideExportModal_def Let_def)
next
  case (Suspended w')
  note eff = loadFFmpeg_effect [OF disjI2, OF disjI2, OF Suspended]
  show ?thesis
    using assms Suspended eff
    by (simp add: downloadProcessedVideo_def video_try_def showExportModal_def
        updateExportStatus_def updateExportProgress_def loadFFmpeg_frame)
qed

theorem url_export_fails_after_load_witness:
  "\<not> isExporting cached_url_world \<and> videoFile cached_url_world = None
   \<and> loadFFmpeg fair_env cached_url_world = Returned cached_url_world
   \<and> engineCalls (snd (downloadProcessedVideo fair_env cached_url_world)) = []
   \<and> fst (downloadProcessedVideo fair_env cached_url_world) = Failed url_error
   \<and> toasts (snd (downloadProcessedVideo fair_env cached_url_world))
       = [(''Video file required for export. URL-based videos cannot be re-encoded.'', ''error'')]
   \<and> \<not> isExporting (snd (downloadProcessedVideo fair_env cached_url_world))
   \<and> ffmpeg (snd (downloadProcessedVideo fair_env cached_url_world))
       = Some \<lparr>loaded = True, storage = []\<rparr>"
proof -
  have a: "\<not> isExporting cached_url_world" and b: "videoFile cached_url_world = None"
    and c: "ffmpeg cached_url_world = Some \<lparr>loaded = True, storage = []\<rparr>"
    and d: "engineCalls cached_url_world = []" and t: "toasts cached_url_world = []"
    by (simp_all add: cached_url_world_def url_world_def file_world_def)
  have l: "loadFFmpeg fair_env cached_url_world = Returned cached_url_world"
    using c by (simp add: loadFFmpeg_def)
  show ?thesis
    using url_export_fails_after_load [OF a b, of fair_env] a b c d t l
    by (simp add: url_error_def)
qed

lemma exec_failure_run:
  "downloadProcessedVideo exec_fails_env file_world =
     (Failed (Error ''Aborted()''),
      file_world\<lparr>modalTitle := ''Exporting Video'', modalHidden := True,
        exportPercent := Finite 95,
        exportStatus := ''Encoding video with processed audio...'',
        ffmpeg := Some \<lparr>loaded = True, storage = [''input.mp4'']\<rparr>,
        toasts := [(''Video export failed'', ''error'')],
        engineCalls := [LoadEngine, WriteFile ''input.mp4'', Exec (exec_args ''speech'')]\<rparr>)"
proof -
  have "\<not> str_includes ''Aborted()'' ''SharedArrayBuffer''"
    and "\<not> str_includes ''Aborted()'' ''URL-based''"
    by code_simp+
  then show ?thesis
    by (simp add: downloadProcessedVideo_def video_try_def loadFFmpeg_def apply_load_def
        writeFile_def exec_def engine_op_def video_catch_def getCurrentPreset_speech
        exec_fails_env_def file_world_def fair_env_def Let_def
        showExportModal_def updateExportStatus_def updateExportProgress_def showToast_def
        hideExportModal_def)
qed

text \<open>
  C9, as stated, fails on the code: the two \<open>deleteFile\<close> calls stand at the end of
  the \<open>try\<close> block and the \<open>catch\<close> block deletes nothing. When the transcode is
  rejected, \<open>input.mp4\<close> is still in the working storage after the export failed.
\<close>

theorem failed_video_export_keeps_input_counterexample:
  "fst (downloadProcessedVideo exec_fails_env file_world) = Failed (Error ''Aborted()'')
   \<and> ffmpeg (snd (downloadProcessedVideo exec_fails_env file_world))
       = Some \<lparr>loaded = True, storage = [''input.mp4'']\<rparr>
   \<and> engineCalls (snd (downloadProcessedVideo exec_fails_env file_world))
       = [LoadEngine, WriteFile ''input.mp4'', Exec (exec_args ''speech'')]
   \<and> \<not> isExporting (snd (downloadProcessedVideo exec_fails_env file_world))"
  unfolding exec_failure_run by (simp add: file_world_def)

lemma engine_op_Returned:
  assumes "engine_op call f w = Returned w'"
  obtains inst inst' where "ffmpeg w = Some inst" and "loaded inst" and "f inst = Inr inst'"
    and "w' = w\<lparr>engineCalls := engineCalls w @ [call], ffmpeg := Some inst'\<rparr>"
  using assms
  by (auto simp add: engine_op_def Let_def split: option.splits if_splits sum.splits)

lemma engine_op_Thrown:
  assumes "engine_op call f w = Thrown err w'"
  shows "w' = w \<or> w' = w\<lparr>engineCalls := engineCalls w @ [call]\<rparr>"
  using assms
  by (auto simp add: engine_op_def Let_def split: option.splits if_splits sum.splits)

lemma engine_op_not_Suspended: "engine_op call f w \<noteq> Suspended w'"
  by (auto simp add: engine_op_def Let_def split: option.splits if_splits sum.splits)

lemma ui_frame [simp]:
  "ffmpeg (updateExportProgress p w) = ffmpeg w"
  "engineCalls (updateExportProgress p w) = engineCalls w"
  "ffmpeg (updateExportStatus s w) = ffmpeg w"
  "engineCalls (updateExportStatus s w) = engineCalls w"
  "ffmpeg (downloadBlob b n w) = ffmpeg w"
  "engineCalls (downloadBlob b n w) = engineCalls w"
  "ffmpeg (showToast m k w) = ffmpeg w"
  "engineCalls (showToast m k w) = engineCalls w"
  "ffmpeg (hideExportModal w) = ffmpeg w"
  "engineCalls (hideExportModal w) = engineCalls w"
  "ffmpeg (showExportModal n w) = ffmpeg w"
  "engineCalls (showExportModal n w) = engineCalls w"
  by (simp_all add: updateExportProgress_def updateExportStatus_def downloadBlob_def
      showToast_def hideExportModal_def showExportModal_def)

lemma progress_events_frame [simp]:
  "ffmpeg (progress_events ps w) = ffmpeg w"
  "engineCalls (progress_events ps w) = engineCalls w"
  by (induction ps arbitrary: w) simp_all

lemma loadFFmpeg_no_delete:
  assumes "loadFFmpeg e w = Returned w' \<or> loadFFmpeg e w = Thrown err w'"
  shows "filter is_delete (engineCalls w') = filter is_delete (engineCalls w)"
  using assms
  by (auto simp add: loadFFmpeg_def apply_load_def Let_def
      split: if_splits option.splits load_outcome.splits)

lemma engine_op_Thrown_calls:
  assumes "engine_op call f w = Thrown err w'" and "\<not> is_delete call"
  shows "filter is_delete (engineCalls w') = filter is_delete (engineCalls w)"
  using engine_op_Thrown [OF assms(1)] assms(2) by auto

lemma engine_op_Returned_calls:
  assumes "engine_op call f w = Returned w'" and "\<not> is_delete call"
  shows "filter is_delete (engineCalls w') = filter is_delete (engineCalls w)"
  using assms(1)
proof (rule engine_op_Returned)
  fix inst inst'
  assume "w' = w\<lparr>engineCalls := engineCalls w @ [call], ffmpeg := Some inst'\<rparr>"
  then show ?thesis using assms(2) by simp
qed

lemma writeFile_Returned:
  assumes "writeFile e n w = Returned w'"
  shows "\<exists>inst. ffmpeg w' = Some inst \<and> loaded inst \<and> n \<in> set (storage inst)"
  using assms unfolding writeFile_def
  by (rule engine_op_Returned) (auto split: option.splits)

lemma exec_Returned:
  assumes "exec e args out w = Returned w'" and "ffmpeg w = Some inst" and "n \<in> set (storage inst)"
  shows "\<exists>inst'. ffmpeg w' = Some inst' \<and> loaded inst' \<and> n \<in> set (storage inst')"
  using assms(1) unfolding exec_def
  by (rule engine_op_Returned) (use assms(2,3) in \<open>auto split: exec_outcome.splits if_splits\<close>)

lemma readFile_Returned:
  assumes "readFile n w = Returned w'"
  shows "\<exists>inst. ffmpeg w' = Some inst \<and> ffmpeg w = Some inst \<and> loaded inst \<and> n \<in> set (storage inst)"
  using assms unfolding readFile_def
  by (rule engine_op_Returned) (auto split: if_splits)

lemma deleteFile_stored:
  assumes "ffmpeg w = Some inst" and "loaded inst" and "n \<in> set (storage inst)"
  shows "deleteFile n w =
           Returned (w\<lparr>engineCalls := engineCalls w @ [DeleteFile n],
                      ffmpeg := Some (inst\<lparr>storage := removeAll n (storage inst)\<rparr>)\<rparr>)"
  using assms by (simp add: deleteFile_def engine_op_def)

text \<open>Once the output was read back, the two deletions go through.\<close>

lemma cleanup_after_read:
  assumes "ffmpeg w = Some inst" and "loaded inst"
    and "''input.mp4'' \<in> set (storage inst)" and "''output.mp4'' \<in> set (storage inst)"
  shows "\<exists>w1 w2 inst2. deleteFile ''input.mp4'' w = Returned w1
           \<and> deleteFile ''output.mp4'' w1 = Returned w2
           \<and> ffmpeg w2 = Some inst2
           \<and> ''input.mp4'' \<notin> set (storage inst2) \<and> ''output.mp4'' \<notin> set (storage inst2)
           \<and> engineCalls w2
               = engineCalls w @ [DeleteFile ''input.mp4'', DeleteFile ''output.mp4'']"
proof -
  let ?i1 = "inst\<lparr>storage := removeAll ''input.mp4'' (storage inst)\<rparr>"
  let ?w1 = "w\<lparr>engineCalls := engineCalls w @ [DeleteFile ''input.mp4''], ffmpeg := Some ?i1\<rparr>"
  have d1: "deleteFile ''input.mp4'' w = Returned ?w1"
    using assms(1,2,3) by (rule deleteFile_stored)
  have "ffmpeg ?w1 = Some ?i1" and "loaded ?i1" and "''output.mp4'' \<in> set (storage ?i1)"
    using assms(2,4) by simp_all
  then have d2: "deleteFile ''output.mp4'' ?w1 =
      Returned (?w1\<lparr>engineCalls := engineCalls ?w1 @ [DeleteFile ''output.mp4''],
                   ffmpeg := Some (?i1\<lparr>storage := removeAll ''output.mp4'' (storage ?i1)\<rparr>)\<rparr>)"
    by (rule deleteFile_stored)
  show ?thesis
    using d1 d2 by simp
qed

lemma video_try_outcome:
  "case video_try e w0 of
     Returned w' \<Rightarrow>
       (\<exists>inst cs. ffmpeg w' = Some inst \<and> ''input.mp4'' \<notin> set (storage inst)
          \<and> ''output.mp4'' \<notin> set (storage inst)
          \<and> engineCalls w' = cs @ [DeleteFile ''input.mp4'', DeleteFile ''output.mp4''])
   | Thrown err w' \<Rightarrow> filter is_delete (engineCalls w') = filter is_delete (engineCalls w0)
   | Suspended w' \<Rightarrow> True"
proof (cases "loadFFmpeg e w0")
  case (Suspended w)
  then show ?thesis by (simp add: video_try_def)
next
  case (Thrown err w)
  then show ?thesis
    using loadFFmpeg_no_delete [of e w0 w err] by (simp add: video_try_def)
next
  case (Returned w1)
  have c1: "filter is_delete (engineCalls w1) = filter is_delete (engineCalls w0)"
    using loadFFmpeg_no_delete [of e w0 w1] Returned by simp
  let ?w2 = "updateExportProgress (Finite 20) (updateExportStatus ''Processing video...'' w1)"
  show ?thesis
  proof (cases "video w1 = None \<or> videoFile w1 = None")
    case True
    then show ?thesis using Returned c1 by (simp add: video_try_def)
  next
    case present: False
    show ?thesis
    proof (cases "fileReadError e")
      case (Some err)
      then show ?thesis using Returned c1 by (simp add: video_try_def Let_def present)
    next
      case None
      show ?thesis
      proof (cases "writeFile e ''input.mp4'' ?w2")
        case (Suspended w)
        then show ?thesis using Returned None by (simp add: video_try_def Let_def present)
      next
        case (Thrown err w)
        then have "filter is_delete (engineCalls w) = filter is_delete (engineCalls ?w2)"
          unfolding writeFile_def by (rule engine_op_Thrown_calls) simp
        then show ?thesis
          using Returned None Thrown c1 by (simp add: video_try_def Let_def present)
      next
        case w3: (Returned w3)
        then have c3: "filter is_delete (engineCalls w3) = filter is_delete (engineCalls ?w2)"
          unfolding writeFile_def by (rule engine_op_Returned_calls) simp
        obtain i3 where i3: "ffmpeg w3 = Some i3" "''input.mp4'' \<in> set (storage i3)"
          using writeFile_Returned [OF w3] by blast
        let ?w4 = "updateExportProgress (Finite 40)
                     (updateExportStatus ''Extracting and processing audio...'' w3)"
        let ?current = "case audioFx ?w4 of None \<Rightarrow> [] | Some a \<Rightarrow> getCurrentPreset a"
        let ?preset = "if ?current = [] then ''off'' else ?current"
        let ?w5 = "updateExportProgress (Finite 60)
                     (updateExportStatus ''Encoding video with processed audio...'' ?w4)"
        have i5: "ffmpeg ?w5 = Some i3" using i3(1) by simp
        show ?thesis
        proof (cases "exec e (exec_args ?preset) ''output.mp4'' ?w5")
          case (Suspended w)
          then show ?thesis
            using Returned None w3 by (simp add: video_try_def Let_def present)
        next
          case (Thrown err w)
          then have "filter is_delete (engineCalls w) = filter is_delete (engineCalls ?w5)"
            unfolding exec_def by (rule engine_op_Thrown_calls) simp
          then show ?thesis
            using Returned None w3 Thrown c1 c3 by (simp add: video_try_def Let_def present)
        next
          case w6: (Returned w6)
          then have c6: "filter is_delete (engineCalls w6) = filter is_delete (engineCalls ?w5)"
            unfolding exec_def by (rule engine_op_Returned_calls) simp
          obtain i6 where i6: "ffmpeg w6 = Some i6" "''input.mp4'' \<in> set (storage i6)"
            using exec_Returned [OF w6 i5 i3(2)] by blast
          let ?w7 = "updateExportProgress (Finite 95)
                       (updateExportStatus ''Preparing download...''
                          (progress_events (execProgress e) w6))"
          have i7: "ffmpeg ?w7 = Some i6" using i6(1) by simp
          show ?thesis
          proof (cases "readFile ''output.mp4'' ?w7")
            case (Suspended w)
            then show ?thesis
              using Returned None w3 w6 by (simp add: video_try_def Let_def present)
          next
            case (Thrown err w)
            then have "filter is_delete (engineCalls w) = filter is_delete (engineCalls ?w7)"
              unfolding readFile_def by (rule engine_op_Thrown_calls) simp
            then show ?thesis
              using Returned None w3 w6 Thrown c1 c3 c6
              by (simp add: video_try_def Let_def present)
          next
            case w8: (Returned w8)
            obtain i8 where i8: "ffmpeg w8 = Some i8" "ffmpeg ?w7 = Some i8" "loaded i8"
                "''output.mp4'' \<in> set (storage i8)"
              using readFile_Returned [OF w8] by blast
            have in8: "''input.mp4'' \<in> set (storage i8)"
              using i8(2) i7 i6(2) by simp
            let ?w9 = "downloadBlob Mp4Blob (getExportFilename ''mp4'' w8) w8"
            have "ffmpeg ?w9 = Some i8" using i8(1) by simp
            then obtain w10 w11 i11 where d: "deleteFile ''input.mp4'' ?w9 = Returned w10"
                "deleteFile ''output.mp4'' w10 = Returned w11" "ffmpeg w11 = Some i11"
                "''input.mp4'' \<notin> set (storage i11)" "''output.mp4'' \<notin> set (storage i11)"
                "engineCalls w11
                   = engineCalls ?w9 @ [DeleteFile ''input.mp4'', DeleteFile ''output.mp4'']"
              using cleanup_after_read [OF _ i8(3) in8 i8(4)] by blast
            show ?thesis
              using Returned None w3 w6 w8 d
              by (simp add: video_try_def Let_def present)
          qed
        qed
      qed
    qed
  qed
qed

text \<open>
  C9, amended. When a video export is delivered, its last two engine calls delete
  \<open>input.mp4\<close> and \<open>output.mp4\<close> and neither name is left in the working storage;
  when it fails, it has made no \<open>deleteFile\<close> call.
\<close>

theorem video_cleanup_on_success_only:
  assumes "\<not> isExporting w"
  shows "(fst (downloadProcessedVideo e w) = Delivered \<longrightarrow>
            (\<exists>inst cs. ffmpeg (snd (downloadProcessedVideo e w)) = Some inst
               \<and> ''input.mp4'' \<notin> set (storage inst) \<and> ''output.mp4'' \<notin> set (storage inst)
               \<and> engineCalls (snd (downloadProcessedVideo e w))
                   = cs @ [DeleteFile ''input.mp4'', DeleteFile ''output.mp4'']))
         \<and> (\<forall>err. fst (downloadProcessedVideo e w) = Failed err \<longrightarrow>
               filter is_delete (engineCalls (snd (downloadProcessedVideo e w)))
                 = filter is_delete (engineCalls w))"
proof -
  let ?w1 = "updateExportStatus ''Loading ffmpeg.wasm (this may take a moment)...''
               (showExportModal ''Exporting Video'' (w\<lparr>isExporting := True\<rparr>))"
  have c: "engineCalls ?w1 = engineCalls w" by simp
  show ?thesis
  proof (cases "video_try e ?w1")
    case (Returned w2)
    then show ?thesis
      using video_try_outcome [of ?w1 e] assms
      by (simp add: downloadProcessedVideo_def Let_def)
  next
    case (Thrown err w2)
    then have "filter is_delete (engineCalls w2) = filter is_delete (engineCalls w)"
      using video_try_outcome [of ?w1 e] c by simp
    moreover have "engineCalls (video_catch err w2) = engineCalls w2"
      by (simp add: video_catch_def Let_def)
    ultimately show ?thesis
      using Thrown assms by (simp add: downloadProcessedVideo_def Let_def)
  next
    case (Suspended w2)
    then show ?thesis
      using assms by (simp add: downloadProcessedVideo_def Let_def)
  qed
qed

theorem video_cleanup_on_success_only_witness:
  "\<not> isExporting file_world
   \<and> fst (downloadProcessedVideo fair_env file_world) = Delivered
   \<and> ffmpeg (snd (downloadProcessedVideo fair_env file_world))
       = Some \<lparr>loaded = True, storage = []\<rparr>
   \<and> engineCalls (snd (downloadProcessedVideo fair_env file_world))
       = [LoadEngine, WriteFile ''input.mp4'', Exec (exec_args ''speech''),
          ReadFile ''output.mp4'', DeleteFile ''input.mp4'', DeleteFile ''output.mp4'']
   \<and> fst (downloadProcessedVideo exec_fails_env file_world) = Failed (Error ''Aborted()'')
   \<and> filter is_delete (engineCalls (snd (downloadProcessedVideo exec_fails_env file_world))) = []"
proof -
  have a: "\<not> isExporting file_world" and c: "engineCalls file_world = []"
    by (simp_all add: file_world_def)
  have d: "downloadProcessedVideo fair_env file_world =
      (Delivered,
       file_world\<lparr>isExporting := True, modalTitle := ''Exporting Video'', modalHidden := False,
         exportPercent := Finite 100, exportStatus := ''Preparing download...'',
         ffmpeg := Some \<lparr>loaded = True, storage = []\<rparr>, pendingHide := True,
         toasts := [(''Video exported successfully!'', ''success'')],
         downloads := [(''talk_speech.mp4'', Mp4Blob)],
         engineCalls := [LoadEngine, WriteFile ''input.mp4'', Exec (exec_args ''speech''),
           ReadFile ''output.mp4'', DeleteFile ''input.mp4'', DeleteFile ''output.mp4'']\<rparr>)"
    by (simp add: downloadProcessedVideo_def video_try_def loadFFmpeg_def apply_load_def
        writeFile_def exec_def readFile_def deleteFile_def engine_op_def
        getCurrentPreset_speech getExportFilename_def strip_extension_def
        file_world_def fair_env_def Let_def
        showExportModal_def updateExportStatus_def updateExportProgress_def showToast_def
        downloadBlob_def)
  have f: "fst (downloadProcessedVideo exec_fails_env file_world) = Failed (Error ''Aborted()'')"
    by (simp add: exec_failure_run)
  show ?thesis
    using video_cleanup_on_success_only [OF a, of fair_env]
      video_cleanup_on_success_only [OF a, of exec_fails_env] a c f
    by (simp add: d)
qed

end
